theory Spec2Isabelle
  imports Main "HOL-Library.Sublist"
begin

section \<open>Results, errors and the monad of effectful code\<close>

text \<open>
  \<^verbatim>\<open>backlink_runner.py\<close> drives a browser through Playwright. Every call into the
  browser may raise. The exceptions the calls of this program raise are all subclasses of
  Python's \<^verbatim>\<open>Exception\<close>: Playwright's \<^verbatim>\<open>Error\<close>, its subclass
  \<^verbatim>\<open>TimeoutError\<close> (imported as \<^verbatim>\<open>PlaywrightTimeoutError\<close>),
  \<^verbatim>\<open>ValueError\<close> (from \<^verbatim>\<open>urlparse\<close>) and any other one. Asynchronous
  interrupts (\<^verbatim>\<open>KeyboardInterrupt\<close>, \<^verbatim>\<open>SystemExit\<close>) are outside the model.
\<close>

datatype error = PlaywrightTimeoutError | PlaywrightError | ValueError | OtherException

text \<open>A statement run in state \<open>'s\<close>: it returns a value or raises, and leaves a state.\<close>

type_synonym ('s, 'a) prog = "'s \<Rightarrow> (error + 'a) \<times> 's"

definition ret :: "'a \<Rightarrow> ('s, 'a) prog" where
  "ret x = (\<lambda>s. (Inr x, s))"

definition bnd :: "('s, 'a) prog \<Rightarrow> ('a \<Rightarrow> ('s, 'b) prog) \<Rightarrow> ('s, 'b) prog" where
  "bnd m f = (\<lambda>s. case m s of (Inl e, s') \<Rightarrow> (Inl e, s') | (Inr x, s') \<Rightarrow> f x s')"

text \<open>\<^verbatim>\<open>try: m  except Exception: h\<close> (every modelled error is an \<^verbatim>\<open>Exception\<close>).\<close>

definition try_except :: "('s, 'a) prog \<Rightarrow> ('s, 'a) prog \<Rightarrow> ('s, 'a) prog" where
  "try_except m h = (\<lambda>s. case m s of (Inl e, s') \<Rightarrow> h s' | (Inr x, s') \<Rightarrow> (Inr x, s'))"

text \<open>\<^verbatim>\<open>try: m  except PlaywrightTimeoutError: h\<close>: any other error passes through.\<close>

definition try_except_timeout :: "('s, 'a) prog \<Rightarrow> ('s, 'a) prog \<Rightarrow> ('s, 'a) prog" where
  "try_except_timeout m h =
     (\<lambda>s. case m s of
             (Inl e, s') \<Rightarrow> (if e = PlaywrightTimeoutError then h s' else (Inl e, s'))
           | (Inr x, s') \<Rightarrow> (Inr x, s'))"

text \<open>
  \<^verbatim>\<open>try: m  finally: fin\<close>: \<open>fin\<close> runs whatever \<open>m\<close> did; an error of \<open>fin\<close>
  replaces the outcome of \<open>m\<close>, otherwise the outcome of \<open>m\<close> (value or error) stands.
\<close>

definition try_finally :: "('s, 'a) prog \<Rightarrow> ('s, unit) prog \<Rightarrow> ('s, 'a) prog" where
  "try_finally m fin =
     (\<lambda>s. case m s of (r, s') \<Rightarrow>
             (case fin s' of (Inl e, s'') \<Rightarrow> (Inl e, s'') | (Inr u, s'') \<Rightarrow> (r, s'')))"

section \<open>Data model\<close>

text \<open>The dataclass \<^verbatim>\<open>BacklinkResult\<close>.\<close>

record BacklinkResult =
  target_url :: string
  "keywords" :: string
  tool_url :: string
  backlink_url :: string

section \<open>Order-preserving deduplication\<close>

text \<open>
  The loop of \<^verbatim>\<open>_load_tools\<close> (and, verbatim, the last loop of
  \<^verbatim>\<open>_extract_links\<close>):
  \<^verbatim>\<open>
  seen = set(); deduped = []
  for u in raw_tools:
      if u not in seen:
          deduped.append(u); seen.add(u)
  return deduped
  \<close>
\<close>

fun dedupe_loop :: "'a list \<Rightarrow> 'a set \<Rightarrow> 'a list \<Rightarrow> 'a list" where
  "dedupe_loop [] seen deduped = deduped"
| "dedupe_loop (u # us) seen deduped =
     (if u \<notin> seen then dedupe_loop us (insert u seen) (deduped @ [u])
      else dedupe_loop us seen deduped)"

definition dedupe :: "'a list \<Rightarrow> 'a list" where
  "dedupe xs = dedupe_loop xs {} []"

definition raw_tools :: "string list" where
  "raw_tools =
    [''https://searchenginereports.net/backlink-maker'',
     ''http://www.indexkings.com/'',
     ''https://www.backlinkr.net/'',
     ''http://www.imtalk.org/cmps_index.php?pageid=IMT-Website-Submitter'',
     ''http://sitowebinfo.com/back/'',
     ''https://useme.org/'',
     ''http://247backlinks.info/'',
     ''http://real-backlinks.com/en'',
     ''http://www.freebacklinkbuilder.net/'',
     ''https://smallseotools.com/backlink-maker/'',
     ''https://w3seo.info/backlink-maker'',
     ''https://sitechecker.pro/backlinks-generator/'',
     ''https://seo1seotools.com/'',
     ''https://free-backlinks.org/'',
     ''http://ping-my-url.net/'',
     ''https://freebacklinks.info/'',
     ''http://ping-my-url.com/beta.html'',
     ''http://free-backlinks.info/'',
     ''https://free-backlinks.net/free-backlink-generator.html'',
     ''http://sitowebinfo.com/back/'',
     ''http://buy-backlinks.info/free-backlinks/'',
     ''https://seo1seotools.com/free-backlink-generator.html'',
     ''http://freebacklinkgenerator.net/free-backlink-generator.html'',
     ''https://buy-backlinks.net/free-backlink-generator.html'',
     ''https://addurl.official.my/'',
     ''http://100downloads.xyz/edugov/'',
     ''https://smartseotools.org/backlink-maker'',
     ''https://sitowebinfo.com/back/'',
     ''http://connectionbuilder.co.uk/'',
     ''https://www.duplichecker.com/backlink-maker.php'',
     ''https://seowagon.com/backlink-maker'',
     ''http://bulklink.org/'',
     ''https://www.coderduck.com/backlink-maker'',
     ''https://www.xwebtools.com/backlink-generator/'',
     ''https://www.w3era.com/tool/backlink-maker/'']"

definition load_tools :: "string list" where
  "load_tools = dedupe raw_tools"

text \<open>The position of the first occurrence of \<open>x\<close> in \<open>xs\<close> (\<open>length xs\<close> when absent).\<close>

definition first_index :: "'a list \<Rightarrow> 'a \<Rightarrow> nat" where
  "first_index xs x = length (takeWhile (\<lambda>y. y \<noteq> x) xs)"

text \<open>
  \<^verbatim>\<open>app.py\<close>, line 121: \<^verbatim>\<open>df.drop_duplicates(subset=["backlink_url"])\<close>, on the
  frame whose rows are the records in order. pandas is not part of the repository; its
  documented behaviour with the default \<^verbatim>\<open>keep="first"\<close> is: a row is dropped when
  an earlier row has the same values in the subset columns, and the rows kept stay in order.
\<close>

fun drop_duplicates_loop ::
  "BacklinkResult list \<Rightarrow> string set \<Rightarrow> BacklinkResult list" where
  "drop_duplicates_loop [] seen = []"
| "drop_duplicates_loop (r # rs) seen =
     (if backlink_url r \<in> seen then drop_duplicates_loop rs seen
      else r # drop_duplicates_loop rs (insert (backlink_url r) seen))"

definition drop_duplicates :: "BacklinkResult list \<Rightarrow> BacklinkResult list" where
  "drop_duplicates rs = drop_duplicates_loop rs {}"

section \<open>Strings and URLs\<close>

text \<open>
  A \<open>string\<close> stands for a Python \<^verbatim>\<open>str\<close> whose code points are below 256, one
  \<open>char\<close> per code point.

  \<^verbatim>\<open>str.strip()\<close> removes the characters for which \<^verbatim>\<open>str.isspace\<close> holds; below
  256 these are the code points 9 to 13, 28 to 32, 133 and 160.
\<close>

definition isspace :: "char \<Rightarrow> bool" where
  "isspace c = (let n = (of_char c :: nat) in
     (9 \<le> n \<and> n \<le> 13) \<or> (28 \<le> n \<and> n \<le> 32) \<or> n = 133 \<or> n = 160)"

definition strip :: "string \<Rightarrow> string" where
  "strip s = rev (dropWhile isspace (rev (dropWhile isspace s)))"

text \<open>\<^verbatim>\<open>s.rstrip("/")\<close>\<close>

definition rstrip_slash :: "string \<Rightarrow> string" where
  "rstrip_slash s = rev (dropWhile (\<lambda>c. c = CHR ''/'') (rev s))"

text \<open>\<^verbatim>\<open>s.startswith(p)\<close>\<close>

definition startswith :: "string \<Rightarrow> string \<Rightarrow> bool" where
  "startswith s p = (take (length p) s = p)"

text \<open>\<^verbatim>\<open>sep.join(xs)\<close>\<close>

fun join :: "string \<Rightarrow> string list \<Rightarrow> string" where
  "join sep [] = []"
| "join sep [x] = x"
| "join sep (x # y # ys) = x @ sep @ join sep (y # ys)"

text \<open>The two fields of \<^verbatim>\<open>urlparse\<close>'s result that the program reads.\<close>

record url_parts =
  scheme :: string
  netloc :: string

text \<open>
  \<^verbatim>\<open>urllib.parse.urlparse\<close> belongs to Python's standard library, not to the
  repository. The general theorems below take it as a parameter (a field of the
  environment). For closed examples, \<open>py_urlparse\<close> follows \<^verbatim>\<open>urlsplit\<close> of CPython 3.12
  as far as the scheme and the network location go:
  \<^verbatim>\<open>
  url = url.lstrip(_WHATWG_C0_CONTROL_OR_SPACE)          # code points 0..32
  for b in '\t\r\n': url = url.replace(b, "")
  netloc = ''
  i = url.find(':')
  if i > 0 and url[0].isascii() and url[0].isalpha():
      for c in url[:i]:
          if c not in scheme_chars: break
      else:
          scheme, url = url[:i].lower(), url[i+1:]
  if url[:2] == '//':
      netloc, url = _splitnetloc(url, 2)                 # up to the first of / ? #
      if (('[' in netloc and ']' not in netloc) or
              (']' in netloc and '[' not in netloc)):
          raise ValueError("Invalid IPv6 URL")
  \<close>
  CPython makes two more checks, which may raise \<^verbatim>\<open>ValueError\<close> and which
  \<open>py_urlparse\<close> leaves out: the syntax of a bracketed IPv6 host, and the NFKC form of a
  non-ASCII network location. \<open>py_urlparse\<close> is therefore exact on the URLs whose network
  location is ASCII without brackets, which is where the examples below use it.
\<close>

definition is_ascii_alpha :: "char \<Rightarrow> bool" where
  "is_ascii_alpha c = (let n = (of_char c :: nat) in
     (65 \<le> n \<and> n \<le> 90) \<or> (97 \<le> n \<and> n \<le> 122))"

definition scheme_char :: "char \<Rightarrow> bool" where
  "scheme_char c = (let n = (of_char c :: nat) in
     (65 \<le> n \<and> n \<le> 90) \<or> (97 \<le> n \<and> n \<le> 122) \<or> (48 \<le> n \<and> n \<le> 57)
     \<or> c = CHR ''+'' \<or> c = CHR ''-'' \<or> c = CHR ''.'')"

definition ascii_lower :: "char \<Rightarrow> char" where
  "ascii_lower c = (let n = (of_char c :: nat) in
     if 65 \<le> n \<and> n \<le> 90 then char_of (n + 32) else c)"

definition split_scheme :: "string \<Rightarrow> string \<times> string" where
  "split_scheme url =
     (let pre = takeWhile (\<lambda>c. c \<noteq> CHR '':'') url in
      if CHR '':'' \<in> set url \<and> pre \<noteq> [] \<and> is_ascii_alpha (hd url) \<and> list_all scheme_char pre
      then (map ascii_lower pre, drop (Suc (length pre)) url)
      else ([], url))"

definition splitnetloc :: "string \<Rightarrow> string" where
  "splitnetloc rest =
     (if take 2 rest = ''//''
      then takeWhile (\<lambda>c. c \<noteq> CHR ''/'' \<and> c \<noteq> CHR ''?'' \<and> c \<noteq> CHR ''#'') (drop 2 rest)
      else [])"

definition py_urlparse :: "string \<Rightarrow> error + url_parts" where
  "py_urlparse url0 =
     (let url1 = dropWhile (\<lambda>c. (of_char c :: nat) \<le> 32) url0;
          url2 = filter (\<lambda>c. c \<noteq> CHR 0x09 \<and> c \<noteq> CHR 0x0D \<and> c \<noteq> CHR 0x0A) url1;
          (sch, rest) = split_scheme url2;
          nl = splitnetloc rest
      in if (CHR ''['' \<in> set nl \<and> CHR '']'' \<notin> set nl) \<or> (CHR '']'' \<in> set nl \<and> CHR ''['' \<notin> set nl)
         then Inl ValueError
         else Inr \<lparr>scheme = sch, netloc = nl\<rparr>)"

section \<open>The world outside: Playwright, BeautifulSoup, urlparse\<close>

text \<open>
  The browser is not part of the repository. The model takes it as an environment: one
  field per Playwright call the program makes, each a function of the state \<open>'w\<close> of the
  world outside (the browser, its pages, the network), returning a value or an error and the
  next world. \<open>'p\<close> is the type of page handles and \<open>'l\<close> the type of locator handles.
  Nothing is assumed on these functions: a theorem over every environment holds of every
  behaviour of the browser.

  \<^item> \<open>page_url w p\<close> is the property \<^verbatim>\<open>page.url\<close>: a read of the world, which changes
    only through the calls.
  \<^item> \<open>find_all_a_href html\<close> is
    \<^verbatim>\<open>[a.get("href", "") for a in BeautifulSoup(html, "html.parser").find_all("a", href=True)]\<close>:
    the \<^verbatim>\<open>href\<close> values of the anchors that have one, in document order.
  \<^item> \<open>urlparse\<close> is \<^verbatim>\<open>urllib.parse.urlparse\<close>, which may raise \<^verbatim>\<open>ValueError\<close>.
  \<^item> The regular expressions \<^verbatim>\<open>re.compile(kw, re.I)\<close> are passed as their pattern \<open>kw\<close>.
\<close>

record ('w, 'p, 'l) env =
  sync_playwright_start :: "'w \<Rightarrow> (error + unit) \<times> 'w"
  chromium_launch :: "bool \<Rightarrow> 'w \<Rightarrow> (error + unit) \<times> 'w"
  browser_new_context :: "'w \<Rightarrow> (error + unit) \<times> 'w"
  context_new_page :: "'w \<Rightarrow> (error + 'p) \<times> 'w"
  page_set_default_timeout :: "'p \<Rightarrow> int \<Rightarrow> 'w \<Rightarrow> (error + unit) \<times> 'w"
  page_goto :: "'p \<Rightarrow> string \<Rightarrow> string \<Rightarrow> 'w \<Rightarrow> (error + unit) \<times> 'w"
  page_get_by_label :: "'p \<Rightarrow> string \<Rightarrow> 'w \<Rightarrow> (error + 'l) \<times> 'w"
  page_get_by_role :: "'p \<Rightarrow> string \<Rightarrow> string \<Rightarrow> 'w \<Rightarrow> (error + 'l) \<times> 'w"
  page_locator :: "'p \<Rightarrow> string \<Rightarrow> 'w \<Rightarrow> (error + 'l) \<times> 'w"
  locator_first :: "'l \<Rightarrow> 'w \<Rightarrow> (error + 'l) \<times> 'w"
  locator_count :: "'l \<Rightarrow> 'w \<Rightarrow> (error + nat) \<times> 'w"
  locator_click :: "'l \<Rightarrow> 'w \<Rightarrow> (error + unit) \<times> 'w"
  locator_fill :: "'l \<Rightarrow> string \<Rightarrow> 'w \<Rightarrow> (error + unit) \<times> 'w"
  locator_type :: "'l \<Rightarrow> string \<Rightarrow> nat \<Rightarrow> 'w \<Rightarrow> (error + unit) \<times> 'w"
  locator_press :: "'l \<Rightarrow> string \<Rightarrow> 'w \<Rightarrow> (error + unit) \<times> 'w"
  page_keyboard_press :: "'p \<Rightarrow> string \<Rightarrow> 'w \<Rightarrow> (error + unit) \<times> 'w"
  page_wait_for_load_state :: "'p \<Rightarrow> string \<Rightarrow> int \<Rightarrow> 'w \<Rightarrow> (error + unit) \<times> 'w"
  time_sleep :: "'w \<Rightarrow> 'w"
  page_url :: "'w \<Rightarrow> 'p \<Rightarrow> string"
  page_content :: "'p \<Rightarrow> 'w \<Rightarrow> (error + string) \<times> 'w"
  page_close :: "'p \<Rightarrow> 'w \<Rightarrow> (error + unit) \<times> 'w"
  context_close :: "'w \<Rightarrow> (error + unit) \<times> 'w"
  browser_close :: "'w \<Rightarrow> (error + unit) \<times> 'w"
  playwright_stop :: "'w \<Rightarrow> (error + unit) \<times> 'w"
  find_all_a_href :: "string \<Rightarrow> string list"
  urlparse :: "string \<Rightarrow> error + url_parts"

text \<open>The calls into the browser, as the history records them.\<close>

datatype ('p, 'l) call =
    SyncPlaywrightStart
  | ChromiumLaunch bool
  | BrowserNewContext
  | NewPage
  | SetDefaultTimeout 'p int
  | Goto 'p string string
  | GetByLabel 'p string
  | GetByRole 'p string string
  | Locator 'p string
  | First 'l
  | Count 'l
  | Click 'l
  | Fill 'l string
  | TypeText 'l string nat
  | Press 'l string
  | KeyboardPress 'p string
  | WaitForLoadState 'p string int
  | Sleep
  | Content 'p
  | PageClose 'p
  | ContextClose
  | BrowserClose
  | PlaywrightStop

text \<open>What a call returned, as the history records it.\<close>

datatype ('p, 'l) val = Nothing | PageV 'p | LocatorV 'l | Number nat | Text string

text \<open>
  The state the methods of \<^verbatim>\<open>BacklinkRunner\<close> run in: the attributes of the runner
  (\<^verbatim>\<open>self.playwright\<close>, \<^verbatim>\<open>self.browser\<close> and \<^verbatim>\<open>self.context\<close> are the single
  handles of the world outside and live in \<open>world\<close>), the world, and the history of the
  calls made into it so far, each with what it returned (\<open>Inr\<close>) or raised (\<open>Inl\<close>).
\<close>

record ('w, 'p, 'l) state =
  per_tool_timeout_ms :: int
  tools :: "string list"
  world :: 'w
  history :: "(('p, 'l) call \<times> (error + ('p, 'l) val)) list"

definition returned :: "error + 'a \<Rightarrow> bool" where
  "returned r = (case r of Inl e \<Rightarrow> False | Inr x \<Rightarrow> True)"

text \<open>
  One call into the world: it moves the world and is appended to the history, with its
  outcome (\<open>as_val\<close> gives the form in which the history holds the value returned).
\<close>

definition perform ::
  "('p, 'l) call \<Rightarrow> ('a \<Rightarrow> ('p, 'l) val) \<Rightarrow> ('w \<Rightarrow> (error + 'a) \<times> 'w) \<Rightarrow>
   (('w, 'p, 'l) state, 'a) prog" where
  "perform c as_val f =
     (\<lambda>s. case f (world s) of (r, w) \<Rightarrow>
             (r, s\<lparr>world := w, history := history s @ [(c, map_sum id as_val r)]\<rparr>))"

definition nothing :: "unit \<Rightarrow> ('p, 'l) val" where
  "nothing u = Nothing"

definition new_page :: "('w, 'p, 'l) env \<Rightarrow> (('w, 'p, 'l) state, 'p) prog" where
  "new_page e = perform NewPage PageV (context_new_page e)"

definition set_default_timeout ::
  "('w, 'p, 'l) env \<Rightarrow> 'p \<Rightarrow> int \<Rightarrow> (('w, 'p, 'l) state, unit) prog" where
  "set_default_timeout e p ms = perform (SetDefaultTimeout p ms) nothing (page_set_default_timeout e p ms)"

definition goto ::
  "('w, 'p, 'l) env \<Rightarrow> 'p \<Rightarrow> string \<Rightarrow> string \<Rightarrow> (('w, 'p, 'l) state, unit) prog" where
  "goto e p url wait_until = perform (Goto p url wait_until) nothing (page_goto e p url wait_until)"

definition get_by_label ::
  "('w, 'p, 'l) env \<Rightarrow> 'p \<Rightarrow> string \<Rightarrow> (('w, 'p, 'l) state, 'l) prog" where
  "get_by_label e p kw = perform (GetByLabel p kw) LocatorV (page_get_by_label e p kw)"

definition get_by_role ::
  "('w, 'p, 'l) env \<Rightarrow> 'p \<Rightarrow> string \<Rightarrow> string \<Rightarrow> (('w, 'p, 'l) state, 'l) prog" where
  "get_by_role e p role nm = perform (GetByRole p role nm) LocatorV (page_get_by_role e p role nm)"

definition locator ::
  "('w, 'p, 'l) env \<Rightarrow> 'p \<Rightarrow> string \<Rightarrow> (('w, 'p, 'l) state, 'l) prog" where
  "locator e p sel = perform (Locator p sel) LocatorV (page_locator e p sel)"

definition first :: "('w, 'p, 'l) env \<Rightarrow> 'l \<Rightarrow> (('w, 'p, 'l) state, 'l) prog" where
  "first e l = perform (First l) LocatorV (locator_first e l)"

definition count :: "('w, 'p, 'l) env \<Rightarrow> 'l \<Rightarrow> (('w, 'p, 'l) state, nat) prog" where
  "count e l = perform (Count l) Number (locator_count e l)"

definition click :: "('w, 'p, 'l) env \<Rightarrow> 'l \<Rightarrow> (('w, 'p, 'l) state, unit) prog" where
  "click e l = perform (Click l) nothing (locator_click e l)"

definition fill :: "('w, 'p, 'l) env \<Rightarrow> 'l \<Rightarrow> string \<Rightarrow> (('w, 'p, 'l) state, unit) prog" where
  "fill e l v = perform (Fill l v) nothing (locator_fill e l v)"

definition type_text ::
  "('w, 'p, 'l) env \<Rightarrow> 'l \<Rightarrow> string \<Rightarrow> nat \<Rightarrow> (('w, 'p, 'l) state, unit) prog" where
  "type_text e l v delay = perform (TypeText l v delay) nothing (locator_type e l v delay)"

definition press :: "('w, 'p, 'l) env \<Rightarrow> 'l \<Rightarrow> string \<Rightarrow> (('w, 'p, 'l) state, unit) prog" where
  "press e l k = perform (Press l k) nothing (locator_press e l k)"

definition keyboard_press ::
  "('w, 'p, 'l) env \<Rightarrow> 'p \<Rightarrow> string \<Rightarrow> (('w, 'p, 'l) state, unit) prog" where
  "keyboard_press e p k = perform (KeyboardPress p k) nothing (page_keyboard_press e p k)"

definition wait_for_load_state ::
  "('w, 'p, 'l) env \<Rightarrow> 'p \<Rightarrow> string \<Rightarrow> int \<Rightarrow> (('w, 'p, 'l) state, unit) prog" where
  "wait_for_load_state e p st ms =
     perform (WaitForLoadState p st ms) nothing (page_wait_for_load_state e p st ms)"

definition sleep :: "('w, 'p, 'l) env \<Rightarrow> (('w, 'p, 'l) state, unit) prog" where
  "sleep e = perform Sleep nothing (\<lambda>w. (Inr (), time_sleep e w))"

definition content :: "('w, 'p, 'l) env \<Rightarrow> 'p \<Rightarrow> (('w, 'p, 'l) state, string) prog" where
  "content e p = perform (Content p) Text (page_content e p)"

definition close_page :: "('w, 'p, 'l) env \<Rightarrow> 'p \<Rightarrow> (('w, 'p, 'l) state, unit) prog" where
  "close_page e p = perform (PageClose p) nothing (page_close e p)"

definition url_of :: "('w, 'p, 'l) env \<Rightarrow> 'p \<Rightarrow> ('w, 'p, 'l) state \<Rightarrow> string" where
  "url_of e p s = page_url e (world s) p"

section \<open>The methods of \<^verbatim>\<open>BacklinkRunner\<close>\<close>

subsection \<open>\<^verbatim>\<open>__init__\<close> and \<^verbatim>\<open>shutdown\<close>\<close>

text \<open>
  \<^verbatim>\<open>
  self.per_tool_timeout_ms = per_tool_timeout_sec * 1000
  self.playwright = sync_playwright().start()
  self.browser = self.playwright.chromium.launch(headless=headless)
  self.context = self.browser.new_context()
  self.tools = self._load_tools()
  \<close>
  An error of one of the three calls leaves no runner.
\<close>

definition init ::
  "('w, 'p, 'l) env \<Rightarrow> bool \<Rightarrow> int \<Rightarrow> 'w \<Rightarrow> error + ('w, 'p, 'l) state" where
  "init e headless per_tool_timeout_sec w =
     (case bnd (perform SyncPlaywrightStart nothing (sync_playwright_start e)) (\<lambda>u.
           bnd (perform (ChromiumLaunch headless) nothing (chromium_launch e headless)) (\<lambda>u.
           perform BrowserNewContext nothing (browser_new_context e)))
             \<lparr>per_tool_timeout_ms = per_tool_timeout_sec * 1000, tools = [],
              world = w, history = []\<rparr>
      of (Inl err, s) \<Rightarrow> Inl err
       | (Inr u, s) \<Rightarrow> Inr (s\<lparr>tools := load_tools\<rparr>))"

text \<open>
  \<^verbatim>\<open>
  def shutdown(self):
      try:
          self.context.close()
      finally:
          try:
              self.browser.close()
          finally:
              self.playwright.stop()
  \<close>
\<close>

definition shutdown :: "('w, 'p, 'l) env \<Rightarrow> (('w, 'p, 'l) state, unit) prog" where
  "shutdown e =
     try_finally (perform ContextClose nothing (context_close e))
       (try_finally (perform BrowserClose nothing (browser_close e))
          (perform PlaywrightStop nothing (playwright_stop e)))"

text \<open>
  The call site, \<^verbatim>\<open>app.py\<close> lines 109 to 112:
  \<^verbatim>\<open>
  try:
      runner.shutdown()
  except:
      pass
  \<close>
\<close>

definition app_shutdown :: "('w, 'p, 'l) env \<Rightarrow> (('w, 'p, 'l) state, unit) prog" where
  "app_shutdown e = try_except (shutdown e) (ret ())"

subsection \<open>\<^verbatim>\<open>_find_best_field\<close>\<close>

text \<open>
  The first loop of \<^verbatim>\<open>_find_best_field\<close>:
  \<^verbatim>\<open>
  for kw in keyword_variants:
      try:
          el = page.get_by_label(re.compile(kw, re.I)).first
          if el and el.count() > 0:
              return el
      except Exception:
          pass
  \<close>
  A Playwright locator is an object without \<^verbatim>\<open>__bool__\<close> or \<^verbatim>\<open>__len__\<close>, hence
  true in a condition. \<open>None\<close> below stands for "no \<^verbatim>\<open>return\<close> yet".
\<close>

fun label_loop ::
  "('w, 'p, 'l) env \<Rightarrow> 'p \<Rightarrow> string list \<Rightarrow> (('w, 'p, 'l) state, 'l option) prog" where
  "label_loop e page [] = ret None"
| "label_loop e page (kw # kws) =
     bnd (try_except
            (bnd (get_by_label e page kw) (\<lambda>l.
             bnd (first e l) (\<lambda>el.
             bnd (count e el) (\<lambda>n.
             ret (if n > 0 then Some el else None)))))
            (ret None))
       (\<lambda>hit. case hit of Some el \<Rightarrow> ret (Some el) | None \<Rightarrow> label_loop e page kws)"

text \<open>
  The XPath query:
  \<^verbatim>\<open>
  kw_union = " or ".join([
      f"contains(translate(@placeholder,'ABC...Z','abc...z'), '{kw}')"
      + f" or contains(translate(@name,'ABC...Z','abc...z'), '{kw}')"
      + f" or contains(translate(@id,'ABC...Z','abc...z'), '{kw}')"
      + f" or contains(translate(@aria-label,'ABC...Z','abc...z'), '{kw}')"
      for kw in keyword_variants])
  xpath = "xpath=(//input[(" + kw_union + ")] | //textarea[(" + kw_union + ")])[1]"
  \<close>
  \<open>quoted kw\<close> is \<^verbatim>\<open>'{kw}'\<close>.
\<close>

definition quoted :: "string \<Rightarrow> string" where
  "quoted s = CHR 0x27 # s @ [CHR 0x27]"

definition contains_attr :: "string \<Rightarrow> string \<Rightarrow> string" where
  "contains_attr attr kw =
     ''contains(translate(@'' @ attr @ '','' @ quoted ''ABCDEFGHIJKLMNOPQRSTUVWXYZ'' @ '',''
       @ quoted ''abcdefghijklmnopqrstuvwxyz'' @ ''), '' @ quoted kw @ '')''"

definition kw_clause :: "string \<Rightarrow> string" where
  "kw_clause kw =
     contains_attr ''placeholder'' kw
     @ '' or '' @ contains_attr ''name'' kw
     @ '' or '' @ contains_attr ''id'' kw
     @ '' or '' @ contains_attr ''aria-label'' kw"

definition kw_union :: "string list \<Rightarrow> string" where
  "kw_union keyword_variants = join '' or '' (map kw_clause keyword_variants)"

definition field_xpath :: "string list \<Rightarrow> string" where
  "field_xpath keyword_variants =
     ''xpath=(//input[('' @ kw_union keyword_variants @ '')] | //textarea[(''
       @ kw_union keyword_variants @ '')])[1]''"

text \<open>
  \<^verbatim>\<open>
  try:
      locator = page.locator(xpath)
      if locator and locator.count() > 0:
          return locator
  except Exception:
      pass
  return None
  \<close>
\<close>

definition find_best_field ::
  "('w, 'p, 'l) env \<Rightarrow> 'p \<Rightarrow> string list \<Rightarrow> (('w, 'p, 'l) state, 'l option) prog" where
  "find_best_field e page keyword_variants =
     bnd (label_loop e page keyword_variants) (\<lambda>hit.
       case hit of
         Some el \<Rightarrow> ret (Some el)
       | None \<Rightarrow>
           try_except
             (bnd (locator e page (field_xpath keyword_variants)) (\<lambda>loc.
              bnd (count e loc) (\<lambda>n.
              ret (if n > 0 then Some loc else None))))
             (ret None))"

subsection \<open>\<^verbatim>\<open>_click_submit\<close>\<close>

text \<open>
  \<^verbatim>\<open>_click_submit\<close> repeats one block, with four ways \<open>finder\<close> of making the candidate:
  \<^verbatim>\<open>
  try:
      candidate = <finder>.first
      if candidate and candidate.count() > 0:
          candidate.click()
          return True
  except Exception:
      pass
  \<close>
  \<open>try_click\<close> is that block; its result says whether the block returned \<^verbatim>\<open>True\<close>.
\<close>

definition try_click ::
  "('w, 'p, 'l) env \<Rightarrow> (('w, 'p, 'l) state, 'l) prog \<Rightarrow> (('w, 'p, 'l) state, bool) prog" where
  "try_click e finder =
     try_except
       (bnd finder (\<lambda>l.
        bnd (first e l) (\<lambda>candidate.
        bnd (count e candidate) (\<lambda>n.
        if n > 0 then bnd (click e candidate) (\<lambda>u. ret True) else ret False))))
       (ret False)"

definition button_texts :: "string list" where
  "button_texts = [''submit'', ''generate'', ''create'', ''make'', ''build'', ''start'',
                   ''go'', ''check'', ''search'', ''run'']"

text \<open>
  \<^verbatim>\<open>
  for txt in button_texts:
      <block with page.get_by_role("button", name=re.compile(txt, re.I))>
      <block with page.locator(f"button:has-text('{txt}')")>
      <block with page.locator(f"input[type=button][value*='{txt}'], input[value*='{txt}']")>
  \<close>
\<close>

fun text_loop ::
  "('w, 'p, 'l) env \<Rightarrow> 'p \<Rightarrow> string list \<Rightarrow> (('w, 'p, 'l) state, bool) prog" where
  "text_loop e page [] = ret False"
| "text_loop e page (txt # txts) =
     bnd (try_click e (get_by_role e page ''button'' txt)) (\<lambda>done1.
       if done1 then ret True else
     bnd (try_click e (locator e page (''button:has-text('' @ quoted txt @ '')''))) (\<lambda>done2.
       if done2 then ret True else
     bnd (try_click e (locator e page
            (''input[type=button][value*='' @ quoted txt @ ''], input[value*='' @ quoted txt
               @ '']'')))
       (\<lambda>done3.
       if done3 then ret True else text_loop e page txts)))"

text \<open>
  \<^verbatim>\<open>
  <block with page.locator("input[type=submit], button[type=submit]")>
  <the loop over button_texts>
  try:
      page.keyboard.press("Enter")
      return True
  except Exception:
      return False
  \<close>
\<close>

definition click_submit ::
  "('w, 'p, 'l) env \<Rightarrow> 'p \<Rightarrow> (('w, 'p, 'l) state, bool) prog" where
  "click_submit e page =
     bnd (try_click e (locator e page ''input[type=submit], button[type=submit]'')) (\<lambda>done0.
       if done0 then ret True else
     bnd (text_loop e page button_texts) (\<lambda>done1.
       if done1 then ret True else
     try_except (bnd (keyboard_press e page ''Enter'') (\<lambda>u. ret True)) (ret False)))"

subsection \<open>\<^verbatim>\<open>_wait_for_results\<close>\<close>

text \<open>
  \<^verbatim>\<open>
  try:
      page.wait_for_load_state("networkidle", timeout=self.per_tool_timeout_ms)
  except PlaywrightTimeoutError:
      pass
  time.sleep(1.0)
  \<close>
\<close>

definition wait_for_results ::
  "('w, 'p, 'l) env \<Rightarrow> 'p \<Rightarrow> (('w, 'p, 'l) state, unit) prog" where
  "wait_for_results e page =
     bnd (try_except_timeout
            (\<lambda>s. wait_for_load_state e page ''networkidle'' (per_tool_timeout_ms s) s)
            (ret ()))
       (\<lambda>u. sleep e)"

subsection \<open>\<^verbatim>\<open>_extract_links\<close>\<close>

text \<open>
  Lines 240 to 242: \<^verbatim>\<open>page.url.rstrip("/") + ("/" if not href.startswith("/") else "") + href\<close>.
  The \<^verbatim>\<open>try\<close> around it has nothing to catch: the string operations do not raise.
\<close>

definition make_absolute :: "string \<Rightarrow> string \<Rightarrow> string" where
  "make_absolute url href =
     rstrip_slash url @ (if \<not> startswith href ''/'' then ''/'' else []) @ href"

text \<open>
  Lines 236 to 244: the absolute form of one destination.
  \<^verbatim>\<open>
  parsed = urlparse(href)
  if not parsed.scheme:
      abs_url = <make_absolute>
  else:
      abs_url = href
  \<close>
\<close>

definition abs_url_of :: "('w, 'p, 'l) env \<Rightarrow> string \<Rightarrow> string \<Rightarrow> error + string" where
  "abs_url_of e url href =
     (case urlparse e href of
        Inl err \<Rightarrow> Inl err
      | Inr parsed \<Rightarrow> Inr (if scheme parsed = [] then make_absolute url href else href))"

text \<open>
  The loop over the anchors, lines 228 to 251. \<open>url\<close> is \<^verbatim>\<open>page.url\<close> as the loop reads
  it: no call into the browser is made inside the loop, so it is the same at every
  iteration. An error of \<^verbatim>\<open>urlparse\<close> is not caught and leaves the loop.
\<close>

fun anchor_loop ::
  "('w, 'p, 'l) env \<Rightarrow> string \<Rightarrow> string \<Rightarrow> string list \<Rightarrow> string list \<Rightarrow> error + string list" where
  "anchor_loop e url current_host [] found = Inr found"
| "anchor_loop e url current_host (a # anchors) found =
     (let href = strip a in
      if href = [] then anchor_loop e url current_host anchors found
      else if startswith href ''javascript:'' \<or> startswith href ''#''
        then anchor_loop e url current_host anchors found
      else if startswith href ''mailto:'' then anchor_loop e url current_host anchors found
      else
        (case abs_url_of e url href of
           Inl err \<Rightarrow> Inl err
         | Inr abs_url \<Rightarrow>
             (case urlparse e abs_url of
                Inl err \<Rightarrow> Inl err
              | Inr p \<Rightarrow>
                  (let host = netloc p in
                   if host = [] then anchor_loop e url current_host anchors found
                   else if host = current_host
                     then anchor_loop e url current_host anchors found
                   else anchor_loop e url current_host anchors (found @ [abs_url])))))"

text \<open>
  \<^verbatim>\<open>
  current_host = urlparse(page.url).netloc
  try:
      html = page.content()
  except Exception:
      return []
  anchors = BeautifulSoup(html, "html.parser").find_all("a", href=True)
  <the loop over the anchors>
  <order-preserving deduplication of found>
  \<close>
  \<^verbatim>\<open>page.url\<close> is read once before \<^verbatim>\<open>page.content()\<close> and again inside the loop,
  after it.
\<close>

definition lift :: "error + 'a \<Rightarrow> ('s, 'a) prog" where
  "lift r = (\<lambda>s. (r, s))"

definition extract_links ::
  "('w, 'p, 'l) env \<Rightarrow> 'p \<Rightarrow> (('w, 'p, 'l) state, string list) prog" where
  "extract_links e page =
     bnd (\<lambda>s. lift (urlparse e (url_of e page s)) s) (\<lambda>cur.
     bnd (try_except (bnd (content e page) (\<lambda>html. ret (Some html))) (ret None)) (\<lambda>got.
       case got of
         None \<Rightarrow> ret []
       | Some html \<Rightarrow>
           bnd (\<lambda>s. lift (anchor_loop e (url_of e page s) (netloc cur)
                            (find_all_a_href e html) []) s) (\<lambda>found.
           ret (dedupe found))))"

subsection \<open>\<^verbatim>\<open>_run_single_tool\<close> and \<^verbatim>\<open>run_for_target\<close>\<close>

text \<open>Lines 102 to 121: navigation, filling, submission and settling.\<close>

definition submit_target ::
  "('w, 'p, 'l) env \<Rightarrow> 'p \<Rightarrow> string \<Rightarrow> string \<Rightarrow> string \<Rightarrow> (('w, 'p, 'l) state, unit) prog"
  where
  "submit_target e page tool target kws =
     bnd (goto e page tool ''domcontentloaded'') (\<lambda>u.
     bnd (find_best_field e page [''url'', ''website'', ''site'', ''link'']) (\<lambda>url_input.
     bnd (case url_input of
            None \<Rightarrow> ret ()
          | Some l \<Rightarrow> bnd (fill e l []) (\<lambda>u. type_text e l target 10)) (\<lambda>u.
     bnd (find_best_field e page [''keyword'', ''keywords'', ''tags'', ''anchor'']) (\<lambda>kw_input.
     bnd (case kw_input of
            None \<Rightarrow> ret ()
          | Some l \<Rightarrow>
              if kws \<noteq> [] then bnd (fill e l []) (\<lambda>u. type_text e l kws 10)
              else ret ()) (\<lambda>u.
     bnd (click_submit e page) (\<lambda>submitted.
     bnd (if \<not> submitted
          then (case url_input of None \<Rightarrow> ret () | Some l \<Rightarrow> press e l ''Enter'')
          else ret ()) (\<lambda>u.
     wait_for_results e page)))))))"

text \<open>Lines 125 to 133: one record per link.\<close>

definition make_results ::
  "string \<Rightarrow> string \<Rightarrow> string \<Rightarrow> string list \<Rightarrow> BacklinkResult list" where
  "make_results tool target kws backlinks =
     map (\<lambda>link. \<lparr>target_url = target, keywords = kws, tool_url = tool,
                  backlink_url = link\<rparr>) backlinks"

text \<open>
  \<^verbatim>\<open>
  page = self.context.new_page()
  page.set_default_timeout(self.per_tool_timeout_ms)
  try:
      <lines 102 to 121>
      backlinks = self._extract_links(page)
      results = [BacklinkResult(...) for link in backlinks]
      return results
  finally:
      try:
          page.close()
      except Exception:
          pass
  \<close>
\<close>

definition run_single_tool ::
  "('w, 'p, 'l) env \<Rightarrow> string \<Rightarrow> string \<Rightarrow> string \<Rightarrow>
   (('w, 'p, 'l) state, BacklinkResult list) prog" where
  "run_single_tool e tool target kws =
     bnd (new_page e) (\<lambda>page.
     bnd (\<lambda>s. set_default_timeout e page (per_tool_timeout_ms s) s) (\<lambda>u.
     try_finally
       (bnd (submit_target e page tool target kws) (\<lambda>u.
        bnd (extract_links e page) (\<lambda>backlinks.
        ret (make_results tool target kws backlinks))))
       (try_except (close_page e page) (ret ()))))"

text \<open>
  \<^verbatim>\<open>
  results = []
  for tool in self.tools:
      try:
          tool_results = self._run_single_tool(tool_url=tool, target_url=url, keywords=keywords)
          results.extend(tool_results)
      except Exception:
          continue
  return results
  \<close>
\<close>

fun tool_loop ::
  "('w, 'p, 'l) env \<Rightarrow> string \<Rightarrow> string \<Rightarrow> string list \<Rightarrow> BacklinkResult list \<Rightarrow>
   (('w, 'p, 'l) state, BacklinkResult list) prog" where
  "tool_loop e url kws [] results = ret results"
| "tool_loop e url kws (tool # rest) results =
     bnd (try_except
            (bnd (run_single_tool e tool url kws) (\<lambda>tool_results.
             ret (results @ tool_results)))
            (ret results))
       (\<lambda>results'. tool_loop e url kws rest results')"

definition run_for_target ::
  "('w, 'p, 'l) env \<Rightarrow> string \<Rightarrow> string \<Rightarrow> (('w, 'p, 'l) state, BacklinkResult list) prog"
  where
  "run_for_target e url kws = (\<lambda>s. tool_loop e url kws (tools s) [] s)"

section \<open>Observing a run\<close>

text \<open>The calls a statement added to the history, given the states before and after it.\<close>

definition added ::
  "('w, 'p, 'l) state \<Rightarrow> ('w, 'p, 'l) state \<Rightarrow> (('p, 'l) call \<times> (error + ('p, 'l) val)) list" where
  "added s s' = drop (length (history s)) (history s')"

text \<open>
  \<open>steps Q s s'\<close>: from \<open>s\<close> to \<open>s'\<close> the attributes \<^verbatim>\<open>tools\<close> and
  \<^verbatim>\<open>per_tool_timeout_ms\<close> are unchanged, the history has only grown, and every call
  added satisfies \<open>Q\<close>.
\<close>

definition steps ::
  "(('p, 'l) call \<times> (error + ('p, 'l) val) \<Rightarrow> bool) \<Rightarrow> ('w, 'p, 'l) state \<Rightarrow> ('w, 'p, 'l) state \<Rightarrow> bool" where
  "steps Q s s' =
     (tools s' = tools s \<and> per_tool_timeout_ms s' = per_tool_timeout_ms s
      \<and> prefix (history s) (history s') \<and> list_all Q (added s s'))"

text \<open>The number of \<^verbatim>\<open>context.new_page()\<close> calls in a piece of history.\<close>

definition page_opens :: "(('p, 'l) call \<times> (error + ('p, 'l) val)) list \<Rightarrow> nat" where
  "page_opens h = length (filter (\<lambda>cb. fst cb = NewPage) h)"

text \<open>The records a tool contributes: those it returned, none when it raised.\<close>

definition records_of :: "error + BacklinkResult list \<Rightarrow> BacklinkResult list" where
  "records_of r = (case r of Inl err \<Rightarrow> [] | Inr rs \<Rightarrow> rs)"

text \<open>
  The outcome of \<^verbatim>\<open>_run_single_tool\<close> for each tool of a list in turn, each tool run in
  the state its predecessor left, whether that one returned or raised.
\<close>

fun per_tool_outcomes ::
  "('w, 'p, 'l) env \<Rightarrow> string \<Rightarrow> string \<Rightarrow> string list \<Rightarrow> ('w, 'p, 'l) state \<Rightarrow>
   (string \<times> (error + BacklinkResult list)) list" where
  "per_tool_outcomes e url kws [] s = []"
| "per_tool_outcomes e url kws (tool # rest) s =
     (case run_single_tool e tool url kws s of
        (r, s') \<Rightarrow> (tool, r) # per_tool_outcomes e url kws rest s')"

section \<open>Example environments\<close>

text \<open>
  A small browser for closed examples. Its world is the address shown by its one page.
  \<open>landing url\<close> is the address the browser ends on when sent to \<open>url\<close> (\<open>None\<close>: the
  navigation fails). No locator matches any element. The markup of a page is stood for by
  its address, and \<open>anchors\<close> gives the \<^verbatim>\<open>href\<close> values found in it.
\<close>

definition demo_env ::
  "(string \<Rightarrow> string option) \<Rightarrow> (string \<Rightarrow> string list) \<Rightarrow> (string, unit, string) env" where
  "demo_env landing anchors =
     \<lparr>sync_playwright_start = (\<lambda>w. (Inr (), w)),
      chromium_launch = (\<lambda>headless w. (Inr (), w)),
      browser_new_context = (\<lambda>w. (Inr (), w)),
      context_new_page = (\<lambda>w. (Inr (), ''about:blank'')),
      page_set_default_timeout = (\<lambda>p ms w. (Inr (), w)),
      page_goto = (\<lambda>p url wait_until w.
         case landing url of None \<Rightarrow> (Inl PlaywrightError, w) | Some u \<Rightarrow> (Inr (), u)),
      page_get_by_label = (\<lambda>p kw w. (Inr (''label='' @ kw), w)),
      page_get_by_role = (\<lambda>p role nm w. (Inr (''role='' @ role @ '','' @ nm), w)),
      page_locator = (\<lambda>p sel w. (Inr sel, w)),
      locator_first = (\<lambda>l w. (Inr l, w)),
      locator_count = (\<lambda>l w. (Inr 0, w)),
      locator_click = (\<lambda>l w. (Inr (), w)),
      locator_fill = (\<lambda>l v w. (Inr (), w)),
      locator_type = (\<lambda>l v delay w. (Inr (), w)),
      locator_press = (\<lambda>l k w. (Inr (), w)),
      page_keyboard_press = (\<lambda>p k w. (Inr (), w)),
      page_wait_for_load_state = (\<lambda>p st ms w. (Inr (), w)),
      time_sleep = (\<lambda>w. w),
      page_url = (\<lambda>w p. w),
      page_content = (\<lambda>p w. (Inr w, w)),
      page_close = (\<lambda>p w. (Inr (), w)),
      context_close = (\<lambda>w. (Inr (), w)),
      browser_close = (\<lambda>w. (Inr (), w)),
      playwright_stop = (\<lambda>w. (Inr (), w)),
      find_all_a_href = anchors,
      urlparse = py_urlparse\<rparr>"

text \<open>
  One tool is down; another answers from a different host than the one it was asked at,
  with a page that links back to the host of the catalog entry.
\<close>

definition demo_landing :: "string \<Rightarrow> string option" where
  "demo_landing url =
     (if url = ''http://down.example/'' then None
      else if url = ''http://tools.example.com/'' then Some ''https://www.tools.example.com/''
      else Some url)"

definition demo_anchors :: "string \<Rightarrow> string list" where
  "demo_anchors html =
     (if html = ''https://www.tools.example.com/''
      then [''http://tools.example.com/about'', ''/pricing'', ''https://other.com/y'']
      else [])"

definition demo :: "(string, unit, string) env" where
  "demo = demo_env demo_landing demo_anchors"

definition demo_state :: "string list \<Rightarrow> (string, unit, string) state" where
  "demo_state ts =
     \<lparr>per_tool_timeout_ms = 45000, tools = ts, world = ''about:blank'', history = []\<rparr>"

text \<open>The same browser, whose context fails to close.\<close>

definition failing_close_env :: "(string, unit, string) env" where
  "failing_close_env = demo\<lparr>context_close := (\<lambda>w. (Inl PlaywrightError, w))\<rparr>"

text \<open>
  The same browser resting on one page, whose anchors carry the destinations \<open>hrefs\<close>,
  and a state in which that page shows the address \<open>url\<close>.
\<close>

definition page_env :: "string list \<Rightarrow> (string, unit, string) env" where
  "page_env hrefs = demo_env Some (\<lambda>html. hrefs)"

definition page_state :: "string \<Rightarrow> (string, unit, string) state" where
  "page_state url = \<lparr>per_tool_timeout_ms = 45000, tools = [], world = url, history = []\<rparr>"




section \<open>What a run of the submitter shows\<close>

text \<open>
  The calls of \<^verbatim>\<open>_click_submit\<close> read in the history. A click is
  \<^verbatim>\<open>locator.click()\<close>; an action is a click or a key dispatch that returned; a finder is
  one of the two calls with which the method looks for a button.
\<close>

definition is_click :: "('p, 'l) call \<Rightarrow> bool" where
  "is_click c = (case c of Click l \<Rightarrow> True | _ \<Rightarrow> False)"

definition is_action :: "('p, 'l) call \<times> (error + ('p, 'l) val) \<Rightarrow> bool" where
  "is_action cb =
     (returned (snd cb) \<and>
      (case fst cb of Click l \<Rightarrow> True | KeyboardPress p k \<Rightarrow> True | _ \<Rightarrow> False))"

definition is_finder :: "('p, 'l) call \<Rightarrow> bool" where
  "is_finder c = (case c of GetByRole p r n \<Rightarrow> True | Locator p sel \<Rightarrow> True | _ \<Rightarrow> False)"

definition finders :: "(('p, 'l) call \<times> (error + ('p, 'l) val)) list \<Rightarrow> ('p, 'l) call list" where
  "finders h = filter is_finder (map fst h)"

text \<open>
  The strategies of \<^verbatim>\<open>_click_submit\<close> in the order of its text: the submit-typed
  elements, then for each text of \<^verbatim>\<open>button_texts\<close> the button of that name, the button
  holding that text, and the input whose value holds it.
\<close>

definition text_strategies :: "'p \<Rightarrow> string \<Rightarrow> ('p, 'l) call list" where
  "text_strategies page txt =
     [GetByRole page ''button'' txt,
      Locator page (''button:has-text('' @ quoted txt @ '')''),
      Locator page (''input[type=button][value*='' @ quoted txt @ ''], input[value*='' @ quoted txt
         @ '']'')]"

definition submit_strategies :: "'p \<Rightarrow> ('p, 'l) call list" where
  "submit_strategies page =
     Locator page ''input[type=submit], button[type=submit]''
       # concat (map (text_strategies page) button_texts)"

text \<open>
  What a part of \<^verbatim>\<open>_click_submit\<close> that looks for the buttons \<open>cs\<close> does: it returns
  whether it took an action, an action is the last call it makes and is a click, and it
  has looked for the buttons of \<open>cs\<close> in order, for all of them when it took no action.
\<close>

definition block_spec ::
  "('p, 'l) call list \<Rightarrow> ('w, 'p, 'l) state \<Rightarrow> (error + bool) \<times> ('w, 'p, 'l) state \<Rightarrow> bool" where
  "block_spec cs s r =
     (let h = added s (snd r) in
      prefix (history s) (history (snd r))
      \<and> fst r = Inr (list_ex is_action h)
      \<and> \<not> list_ex is_action (butlast h)
      \<and> (if list_ex is_action h then prefix (finders h) cs \<and> is_click (fst (last h))
         else finders h = cs))"

text \<open>
  The example browser with one submit-typed element, and the example browser whose
  keyboard fails.
\<close>

definition button_env :: "(string, unit, string) env" where
  "button_env =
     demo\<lparr>locator_count := (\<lambda>l w.
        (Inr (if l = ''input[type=submit], button[type=submit]'' then 1 else 0), w))\<rparr>"

definition no_keyboard_env :: "(string, unit, string) env" where
  "no_keyboard_env = demo\<lparr>page_keyboard_press := (\<lambda>p k w. (Inl PlaywrightError, w))\<rparr>"

section \<open>What a run of the field locator shows\<close>






text \<open>
  The history ends with a label query for one of the hints, its first element, and the
  count of that element; or with the structural query and its count.
\<close>

definition by_label ::
  "'p \<Rightarrow> string list \<Rightarrow> (('p, 'l) call \<times> (error + ('p, 'l) val)) list \<Rightarrow> bool" where
  "by_label page hints h =
     (\<exists>kw l el n. kw \<in> set hints \<and>
        suffix [(GetByLabel page kw, Inr (LocatorV l)), (First l, Inr (LocatorV el)),
                (Count el, Inr (Number n))] h)"



section \<open>A document for the queries\<close>

text \<open>
  What the queries of \<^verbatim>\<open>_find_best_field\<close> select is decided by the browser, not by the
  program. This section gives the browser a document to answer from: a list of elements in
  document order, each with its tag, its attributes, and the text of the label attached to
  it. It is a model of the library, written from the documentation of Playwright and from
  XPath 1.0, with which the specification's account of the field locator is compared.
\<close>

record element =
  tag :: string
  attrs :: "(string \<times> string) list"
  label_text :: string


















text \<open>The value of an attribute, the empty string when the element does not have it.\<close>

definition attr :: "element \<Rightarrow> string \<Rightarrow> string" where
  "attr el a = (case map_of (attrs el) a of None \<Rightarrow> [] | Some v \<Rightarrow> v)"













definition url_input :: element where
  "url_input = \<lparr>tag = ''input'', attrs = [(''name'', ''url'')], label_text = []\<rparr>"





section \<open>Deduplication: lemmas\<close>

lemma dedupe_loop_acc: "dedupe_loop xs seen acc = acc @ dedupe_loop xs seen []"
proof (induction xs arbitrary: seen acc)
  case Nil
  show ?case by simp
next
  case (Cons u us)
  show ?case
    using Cons.IH [of "insert u seen" "acc @ [u]"] Cons.IH [of "insert u seen" "[u]"]
      Cons.IH [of seen acc]
    by simp
qed

lemma dedupe_loop_Cons:
  "dedupe_loop (u # us) seen [] =
     (if u \<in> seen then dedupe_loop us seen [] else u # dedupe_loop us (insert u seen) [])"
  using dedupe_loop_acc [of us "insert u seen" "[u]"] by simp

lemma set_dedupe_loop: "set (dedupe_loop xs seen []) = set xs - seen"
  by (induction xs arbitrary: seen) (auto simp: dedupe_loop_Cons simp del: dedupe_loop.simps(2))

lemma distinct_dedupe_loop: "distinct (dedupe_loop xs seen [])"
  by (induction xs arbitrary: seen)
    (auto simp: dedupe_loop_Cons set_dedupe_loop simp del: dedupe_loop.simps(2))

lemma first_index_Cons:
  "first_index (y # ys) x = (if y = x then 0 else Suc (first_index ys x))"
  by (simp add: first_index_def)

lemma first_index_dedupe_loop:
  "a \<in> set xs - seen \<Longrightarrow> b \<in> set xs - seen \<Longrightarrow>
   (first_index (dedupe_loop xs seen []) a < first_index (dedupe_loop xs seen []) b) =
   (first_index xs a < first_index xs b)"
proof (induction xs arbitrary: seen)
  case Nil
  then show ?case by simp
next
  case (Cons u us)
  show ?case
  proof (cases "u \<in> seen")
    case True
    with Cons.prems have "a \<in> set us - seen" "b \<in> set us - seen" "u \<noteq> a" "u \<noteq> b"
      by auto
    with Cons.IH [of seen] True show ?thesis
      by (simp add: dedupe_loop_Cons first_index_Cons del: dedupe_loop.simps(2))
  next
    case False
    show ?thesis
    proof (cases "u = a \<or> u = b")
      case True
      with False show ?thesis
        by (auto simp: dedupe_loop_Cons first_index_Cons simp del: dedupe_loop.simps(2))
    next
      case neither: False
      with Cons.prems have "a \<in> set us - insert u seen" "b \<in> set us - insert u seen"
        by auto
      with Cons.IH [of "insert u seen"] False neither show ?thesis
        by (simp add: dedupe_loop_Cons first_index_Cons del: dedupe_loop.simps(2))
    qed
  qed
qed

lemma dedupe_loop_subseq: "subseq (dedupe_loop xs seen []) xs"
  by (induction xs arbitrary: seen)
    (auto simp: dedupe_loop_Cons simp del: dedupe_loop.simps(2))

lemma dedupe_loop_fixed:
  "distinct xs \<Longrightarrow> set xs \<inter> seen = {} \<Longrightarrow> dedupe_loop xs seen [] = xs"
  by (induction xs arbitrary: seen)
    (auto simp: dedupe_loop_Cons simp del: dedupe_loop.simps(2))

lemma set_dedupe: "set (dedupe xs) = set xs"
  by (simp add: dedupe_def set_dedupe_loop)

lemma distinct_dedupe: "distinct (dedupe xs)"
  by (simp add: dedupe_def distinct_dedupe_loop)

lemma dedupe_idem: "dedupe (dedupe xs) = dedupe xs"
  using dedupe_loop_fixed [of "dedupe xs" "{}"] distinct_dedupe [of xs]
  by (simp add: dedupe_def)

lemma keys_drop_duplicates_loop:
  "backlink_url ` set (drop_duplicates_loop rs seen) = backlink_url ` set rs - seen"
  by (induction rs arbitrary: seen) auto

lemma distinct_drop_duplicates_loop:
  "distinct (map backlink_url (drop_duplicates_loop rs seen))"
proof (induction rs arbitrary: seen)
  case Nil
  show ?case by simp
next
  case (Cons r rs)
  have "backlink_url r \<notin> backlink_url ` set (drop_duplicates_loop rs (insert (backlink_url r) seen))"
    unfolding keys_drop_duplicates_loop by simp
  with Cons.IH show ?case by simp
qed

lemma drop_duplicates_loop_fixed:
  "distinct (map backlink_url rs) \<Longrightarrow> backlink_url ` set rs \<inter> seen = {} \<Longrightarrow>
   drop_duplicates_loop rs seen = rs"
  by (induction rs arbitrary: seen) auto

lemma drop_duplicates_loop_subseq: "subseq (drop_duplicates_loop rs seen) rs"
  by (induction rs arbitrary: seen) auto

section \<open>What a statement may change: lemmas\<close>

lemma steps_refl: "steps Q s s"
  by (simp add: steps_def added_def)

lemma steps_trans: "steps Q s s1 \<Longrightarrow> steps Q s1 s2 \<Longrightarrow> steps Q s s2"
  by (auto simp: steps_def added_def prefix_def)

lemma steps_perform: "(\<And>r. Q (c, r)) \<Longrightarrow> steps Q s (snd (perform c as_val f s))"
  by (cases "f (world s)") (auto simp: steps_def added_def perform_def)

lemma steps_ret: "steps Q s (snd (ret x s))"
  by (simp add: ret_def steps_refl)

lemma steps_lift: "steps Q s (snd (lift r s))"
  by (simp add: lift_def steps_refl)

lemma steps_bnd:
  assumes "\<And>s. steps Q s (snd (m s))" and "\<And>x s. steps Q s (snd (f x s))"
  shows "steps Q s (snd (bnd m f s))"
proof (cases "m s")
  case (Pair r s1)
  then have 1: "steps Q s s1" using assms(1) [of s] by simp
  show ?thesis
  proof (cases r)
    case (Inl err)
    with Pair 1 show ?thesis by (simp add: bnd_def)
  next
    case (Inr x)
    with Pair have "bnd m f s = f x s1" by (simp add: bnd_def)
    with 1 assms(2) [of s1 x] show ?thesis by (auto intro: steps_trans)
  qed
qed

lemma steps_try_except:
  assumes "\<And>s. steps Q s (snd (m s))" and "\<And>s. steps Q s (snd (h s))"
  shows "steps Q s (snd (try_except m h s))"
proof (cases "m s")
  case (Pair r s1)
  then have 1: "steps Q s s1" using assms(1) [of s] by simp
  show ?thesis
  proof (cases r)
    case (Inl err)
    with Pair have "try_except m h s = h s1" by (simp add: try_except_def)
    with 1 assms(2) [of s1] show ?thesis by (auto intro: steps_trans)
  next
    case (Inr x)
    with Pair 1 show ?thesis by (simp add: try_except_def)
  qed
qed

lemma steps_try_except_timeout:
  assumes "\<And>s. steps Q s (snd (m s))" and "\<And>s. steps Q s (snd (h s))"
  shows "steps Q s (snd (try_except_timeout m h s))"
proof (cases "m s")
  case (Pair r s1)
  then have 1: "steps Q s s1" using assms(1) [of s] by simp
  show ?thesis
  proof (cases r)
    case (Inl err)
    with Pair have "try_except_timeout m h s = h s1 \<or> try_except_timeout m h s = (Inl err, s1)"
      by (simp add: try_except_timeout_def)
    with 1 assms(2) [of s1] show ?thesis by (auto intro: steps_trans)
  next
    case (Inr x)
    with Pair 1 show ?thesis by (simp add: try_except_timeout_def)
  qed
qed

lemma steps_try_finally:
  assumes "\<And>s. steps Q s (snd (m s))" and "\<And>s. steps Q s (snd (fin s))"
  shows "steps Q s (snd (try_finally m fin s))"
proof (cases "m s")
  case (Pair r s1)
  then have 1: "steps Q s s1" using assms(1) [of s] by simp
  have "snd (try_finally m fin s) = snd (fin s1)"
    using Pair by (auto simp: try_finally_def split: prod.splits sum.splits)
  with 1 assms(2) [of s1] show ?thesis by (auto intro: steps_trans)
qed

lemma steps_case_option:
  "steps Q s (snd (a s)) \<Longrightarrow> (\<And>x. steps Q s (snd (b x s))) \<Longrightarrow>
   steps Q s (snd ((case opt of None \<Rightarrow> a | Some x \<Rightarrow> b x) s))"
  by (cases opt) auto

lemma steps_if:
  "steps Q s (snd (a s)) \<Longrightarrow> steps Q s (snd (b s)) \<Longrightarrow>
   steps Q s (snd ((if c then a else b) s))"
  by simp

lemmas steps_intros =
  steps_bnd steps_try_except steps_try_except_timeout steps_try_finally steps_ret steps_lift
  steps_case_option steps_if steps_perform

lemmas call_defs =
  new_page_def set_default_timeout_def goto_def get_by_label_def get_by_role_def locator_def
  first_def count_def click_def fill_def type_text_def press_def keyboard_press_def
  wait_for_load_state_def sleep_def content_def close_page_def

lemma steps_label_loop:
  assumes "\<And>c r. c \<noteq> NewPage \<Longrightarrow> Q (c, r)"
  shows "steps Q s (snd (label_loop e page kws s))"
  by (induction kws arbitrary: s) (auto intro!: steps_intros assms simp: call_defs)

lemma steps_find_best_field:
  assumes "\<And>c r. c \<noteq> NewPage \<Longrightarrow> Q (c, r)"
  shows "steps Q s (snd (find_best_field e page kws s))"
  unfolding find_best_field_def
  by (auto intro!: steps_intros steps_label_loop assms simp: call_defs)

lemma steps_try_click:
  assumes "\<And>c r. c \<noteq> NewPage \<Longrightarrow> Q (c, r)" and "\<And>s. steps Q s (snd (finder s))"
  shows "steps Q s (snd (try_click e finder s))"
  unfolding try_click_def
  by (auto intro!: steps_intros assms simp: call_defs)

lemma steps_text_loop:
  assumes "\<And>c r. c \<noteq> NewPage \<Longrightarrow> Q (c, r)"
  shows "steps Q s (snd (text_loop e page txts s))"
  by (induction txts arbitrary: s)
     (auto intro!: steps_intros steps_try_click assms simp: call_defs)

lemma steps_click_submit:
  assumes "\<And>c r. c \<noteq> NewPage \<Longrightarrow> Q (c, r)"
  shows "steps Q s (snd (click_submit e page s))"
  unfolding click_submit_def
  by (auto intro!: steps_intros steps_try_click steps_text_loop assms simp: call_defs)

lemma steps_wait_for_results:
  assumes "\<And>c r. c \<noteq> NewPage \<Longrightarrow> Q (c, r)"
  shows "steps Q s (snd (wait_for_results e page s))"
  unfolding wait_for_results_def
  by (auto intro!: steps_intros assms simp: call_defs)

lemma steps_extract_links:
  assumes "\<And>c r. c \<noteq> NewPage \<Longrightarrow> Q (c, r)"
  shows "steps Q s (snd (extract_links e page s))"
  unfolding extract_links_def
  by (auto intro!: steps_intros assms simp: call_defs)

lemma steps_submit_target:
  assumes "\<And>c r. c \<noteq> NewPage \<Longrightarrow> Q (c, r)"
  shows "steps Q s (snd (submit_target e page tool target kws s))"
  unfolding submit_target_def
  by (auto intro!: steps_intros steps_find_best_field steps_click_submit
        steps_wait_for_results assms simp: call_defs)

section \<open>First-occurrence order: lemmas\<close>

lemma first_index_le: "first_index xs x \<le> length xs"
  by (simp add: first_index_def length_takeWhile_le)

section \<open>First-occurrence order: lemmas\<close>

lemma first_index_less: "(first_index xs x < length xs) = (x \<in> set xs)"
  by (induction xs) (auto simp: first_index_Cons)

lemma first_index_dedupe:
  "(first_index (dedupe xs) a < first_index (dedupe xs) b) = (first_index xs a < first_index xs b)"
proof (cases "a \<in> set xs")
  case a: True
  show ?thesis
  proof (cases "b \<in> set xs")
    case True
    with a first_index_dedupe_loop [of a xs "{}" b] show ?thesis by (simp add: dedupe_def)
  next
    case False
    then have "first_index xs b = length xs" "first_index (dedupe xs) b = length (dedupe xs)"
      using first_index_less [of xs b] first_index_less [of "dedupe xs" b]
        first_index_le [of xs b] first_index_le [of "dedupe xs" b]
      by (auto simp: set_dedupe)
    with a show ?thesis
      using first_index_less [of xs a] first_index_less [of "dedupe xs" a]
      by (simp add: set_dedupe)
  qed
next
  case False
  then have "first_index xs a = length xs" "first_index (dedupe xs) a = length (dedupe xs)"
    using first_index_less [of xs a] first_index_less [of "dedupe xs" a]
      first_index_le [of xs a] first_index_le [of "dedupe xs" a]
    by (auto simp: set_dedupe)
  then show ?thesis
    using first_index_le [of xs b] first_index_le [of "dedupe xs" b] by simp
qed

section \<open>The loop over the tools: lemmas\<close>

lemma run_single_tool_history:
  "\<exists>b h. history (snd (run_single_tool e tool url kws s)) = history s @ (NewPage, b) # h
         \<and> list_all (\<lambda>cb. fst cb \<noteq> NewPage) h
         \<and> tools (snd (run_single_tool e tool url kws s)) = tools s
         \<and> per_tool_timeout_ms (snd (run_single_tool e tool url kws s)) = per_tool_timeout_ms s"
proof (cases "context_new_page e (world s)")
  case (Pair r w)
  define s1 where "s1 = s\<lparr>world := w, history := history s @ [(NewPage, map_sum id PageV r)]\<rparr>"
  have np: "new_page e s = (r, s1)"
    using Pair by (simp add: new_page_def perform_def s1_def)
  show ?thesis
  proof (cases r)
    case (Inl err)
    with np have "run_single_tool e tool url kws s = (Inl err, s1)"
      by (simp add: run_single_tool_def bnd_def)
    then show ?thesis by (simp add: s1_def)
  next
    case (Inr page)
    define rest where "rest =
      bnd (\<lambda>s. set_default_timeout e page (per_tool_timeout_ms s) s) (\<lambda>u.
        try_finally
          (bnd (submit_target e page tool url kws) (\<lambda>u.
           bnd (extract_links e page) (\<lambda>backlinks.
           ret (make_results tool url kws backlinks))))
          (try_except (close_page e page) (ret ())))"
    have run: "run_single_tool e tool url kws s = rest s1"
      using np Inr by (simp add: run_single_tool_def bnd_def rest_def)
    have "steps (\<lambda>cb. fst cb \<noteq> NewPage) s1 (snd (rest s1))"
      unfolding rest_def
      by (auto intro!: steps_intros steps_submit_target steps_extract_links simp: call_defs)
    then obtain h where h: "history (snd (rest s1)) = history s1 @ h"
      and rest: "list_all (\<lambda>cb. fst cb \<noteq> NewPage) (added s1 (snd (rest s1)))"
      "tools (snd (rest s1)) = tools s1"
      "per_tool_timeout_ms (snd (rest s1)) = per_tool_timeout_ms s1"
      by (auto simp: steps_def prefix_def)
    from h have "added s1 (snd (rest s1)) = h" by (simp add: added_def)
    with rest h run show ?thesis by (simp add: s1_def)
  qed
qed

lemma tool_loop_Cons:
  "tool_loop e url kws (tool # rest) acc s =
     (case run_single_tool e tool url kws s of
        (r, s') \<Rightarrow> tool_loop e url kws rest (acc @ records_of r) s')"
  by (simp add: bnd_def try_except_def ret_def records_of_def split: prod.splits sum.splits)

lemma tool_loop_outcomes:
  "fst (tool_loop e url kws ts acc s) =
     Inr (acc @ concat (map (\<lambda>tr. records_of (snd tr)) (per_tool_outcomes e url kws ts s)))"
proof (induction ts arbitrary: acc s)
  case Nil
  show ?case by (simp add: ret_def)
next
  case (Cons t ts)
  show ?case
    by (simp add: tool_loop_Cons Cons.IH split: prod.splits del: tool_loop.simps)
qed

lemma per_tool_outcomes_tools: "map fst (per_tool_outcomes e url kws ts s) = ts"
  by (induction ts arbitrary: s) (auto split: prod.splits)

lemma tool_loop_append:
  "tool_loop e url kws (ts1 @ ts2) acc s =
     (case tool_loop e url kws ts1 acc s of
        (Inr r1, s1) \<Rightarrow> tool_loop e url kws ts2 r1 s1
      | (Inl err, s1) \<Rightarrow> (Inl err, s1))"
proof (induction ts1 arbitrary: acc s)
  case Nil
  show ?case by (simp add: ret_def)
next
  case (Cons t ts1)
  show ?case
    by (simp add: tool_loop_Cons Cons.IH split: prod.splits del: tool_loop.simps)
qed

lemma tool_loop_history:
  "\<exists>h. history (snd (tool_loop e url kws ts acc s)) = history s @ h \<and> page_opens h = length ts
       \<and> tools (snd (tool_loop e url kws ts acc s)) = tools s
       \<and> per_tool_timeout_ms (snd (tool_loop e url kws ts acc s)) = per_tool_timeout_ms s"
proof (induction ts arbitrary: acc s)
  case Nil
  show ?case by (simp add: ret_def page_opens_def)
next
  case (Cons t ts)
  obtain r s1 where run: "run_single_tool e t url kws s = (r, s1)"
    by (cases "run_single_tool e t url kws s")
  from run_single_tool_history [of e t url kws s] run
  obtain b h1 where h1: "history s1 = history s @ (NewPage, b) # h1"
    "list_all (\<lambda>cb. fst cb \<noteq> NewPage) h1" "tools s1 = tools s"
    "per_tool_timeout_ms s1 = per_tool_timeout_ms s"
    by auto
  from Cons.IH [of "acc @ records_of r" s1]
  obtain h2 where h2: "history (snd (tool_loop e url kws ts (acc @ records_of r) s1)) = history s1 @ h2"
    "page_opens h2 = length ts"
    "tools (snd (tool_loop e url kws ts (acc @ records_of r) s1)) = tools s1"
    "per_tool_timeout_ms (snd (tool_loop e url kws ts (acc @ records_of r) s1)) = per_tool_timeout_ms s1"
    by auto
  from h1(2) have "filter (\<lambda>cb. fst cb = NewPage) h1 = []"
    by (induction h1) auto
  then have "page_opens ((NewPage, b) # h1 @ h2) = Suc (page_opens h2)"
    by (simp add: page_opens_def)
  with h1 h2 run show ?case
    by (simp add: tool_loop_Cons del: tool_loop.simps)
qed

lemma make_results_fields:
  "r \<in> set (make_results tool target kws links) \<Longrightarrow>
   target_url r = target \<and> keywords r = kws \<and> tool_url r = tool \<and> backlink_url r \<in> set links"
  by (auto simp: make_results_def)

section \<open>Unfolding the model on closed examples\<close>

lemmas monad_defs = ret_def bnd_def try_except_def try_except_timeout_def try_finally_def lift_def
  perform_def returned_def nothing_def

lemmas method_defs = run_single_tool_def submit_target_def find_best_field_def click_submit_def
  try_click_def wait_for_results_def extract_links_def button_texts_def make_results_def url_of_def

lemmas url_defs = py_urlparse_def split_scheme_def splitnetloc_def is_ascii_alpha_def scheme_char_def
  ascii_lower_def strip_def isspace_def startswith_def rstrip_slash_def make_absolute_def abs_url_of_def

section \<open>Start and teardown: lemmas\<close>

lemma returned_map_sum: "returned (map_sum f g r) = returned r"
  by (cases r) (simp_all add: returned_def)

lemma shutdown_history:
  "map fst (added s (snd (shutdown e s))) = [ContextClose, BrowserClose, PlaywrightStop]"
  by (simp add: shutdown_def try_finally_def perform_def added_def split: prod.splits sum.splits)

lemma shutdown_result:
  "(fst (shutdown e s) = Inr ()) =
     list_all (\<lambda>cb. returned (snd cb)) (added s (snd (shutdown e s)))"
proof -
  obtain r1 w1 where 1: "context_close e (world s) = (r1, w1)"
    by (cases "context_close e (world s)")
  obtain r2 w2 where 2: "browser_close e w1 = (r2, w2)"
    by (cases "browser_close e w1")
  obtain r3 w3 where 3: "playwright_stop e w2 = (r3, w3)"
    by (cases "playwright_stop e w2")
  show ?thesis
    using 1 2 3
    by (cases r1; cases r2; cases r3)
       (simp_all add: shutdown_def try_finally_def perform_def added_def returned_def)
qed

lemma app_shutdown_result: "fst (app_shutdown e s) = Inr ()"
  by (simp add: app_shutdown_def try_except_def ret_def split: prod.splits sum.splits)

lemma steps_shutdown: "steps (\<lambda>cb. True) s (snd (shutdown e s))"
  unfolding shutdown_def by (auto intro!: steps_intros)

lemma init_tools: "init e headless sec w = Inr s0 \<Longrightarrow> tools s0 = load_tools \<and> per_tool_timeout_ms s0 = sec * 1000"
  by (auto simp: init_def bnd_def perform_def split: prod.splits sum.splits)

section \<open>The example browser, evaluated\<close>

lemma demo_down:
  "run_single_tool demo ''http://down.example/'' url kws s =
     (Inl PlaywrightError,
      s\<lparr>world := ''about:blank'',
        history := history s @
          [(NewPage, Inr (PageV ())),
           (SetDefaultTimeout () (per_tool_timeout_ms s), Inr Nothing),
           (Goto () ''http://down.example/'' ''domcontentloaded'', Inl PlaywrightError),
           (PageClose (), Inr Nothing)]\<rparr>)"
  by (simp add: monad_defs run_single_tool_def submit_target_def call_defs demo_def demo_env_def
      demo_landing_def)

lemma demo_tools:
  "fst (run_single_tool demo ''http://tools.example.com/'' url kws s) =
     Inr [\<lparr>target_url = url, keywords = kws, tool_url = ''http://tools.example.com/'',
           backlink_url = ''http://tools.example.com/about''\<rparr>,
          \<lparr>target_url = url, keywords = kws, tool_url = ''http://tools.example.com/'',
           backlink_url = ''https://other.com/y''\<rparr>]"
  by (simp add: monad_defs method_defs call_defs url_defs demo_def demo_env_def demo_landing_def
      demo_anchors_def dedupe_def)

lemma drop_duplicates_idem: "drop_duplicates (drop_duplicates rs) = drop_duplicates rs"
  using drop_duplicates_loop_fixed [of "drop_duplicates rs" "{}"]
    distinct_drop_duplicates_loop [of rs "{}"]
  by (simp add: drop_duplicates_def)

lemma run_for_target_tools:
  "tools (snd (run_for_target e url kws s)) = tools s"
  using tool_loop_history [of e url kws "tools s" "[]" s] by (auto simp: run_for_target_def)

lemma demo_init:
  "init demo True 45 ''about:blank'' =
     Inr \<lparr>per_tool_timeout_ms = 45000, tools = load_tools, world = ''about:blank'',
          history = [(SyncPlaywrightStart, Inr Nothing), (ChromiumLaunch True, Inr Nothing),
                     (BrowserNewContext, Inr Nothing)]\<rparr>"
  by (simp add: init_def monad_defs demo_def demo_env_def)

lemma run_single_tool_records:
  assumes "run_single_tool e tool url kws s = (Inr rs, s')"
  shows "\<exists>links. rs = make_results tool url kws links"
  using assms
  by (auto simp: run_single_tool_def bnd_def try_finally_def ret_def
      split: prod.splits sum.splits)

lemma per_tool_outcomes_fields:
  "tr \<in> set (per_tool_outcomes e url kws ts s) \<Longrightarrow> r \<in> set (records_of (snd tr)) \<Longrightarrow>
   target_url r = url \<and> keywords r = kws \<and> tool_url r = fst tr"
proof (induction ts arbitrary: s)
  case Nil
  then show ?case by simp
next
  case (Cons t ts)
  obtain out s1 where run: "run_single_tool e t url kws s = (out, s1)"
    by (cases "run_single_tool e t url kws s")
  with Cons.prems(1) have "tr = (t, out) \<or> tr \<in> set (per_tool_outcomes e url kws ts s1)"
    by simp
  then show ?case
  proof
    assume tr: "tr = (t, out)"
    with Cons.prems(2) obtain rs where out: "out = Inr rs" and r: "r \<in> set rs"
      by (cases out) (auto simp: records_of_def)
    from run out run_single_tool_records [of e t url kws s rs s1]
    obtain links where "rs = make_results t url kws links" by auto
    with r tr show ?thesis using make_results_fields [of r t url kws links] by simp
  next
    assume "tr \<in> set (per_tool_outcomes e url kws ts s1)"
    with Cons.IH [of s1] Cons.prems(2) show ?thesis by simp
  qed
qed

lemma demo_outcomes:
  "per_tool_outcomes demo url kws [''http://down.example/'', ''http://tools.example.com/''] s =
     [(''http://down.example/'', Inl PlaywrightError),
      (''http://tools.example.com/'',
       Inr [\<lparr>target_url = url, keywords = kws, tool_url = ''http://tools.example.com/'',
              backlink_url = ''http://tools.example.com/about''\<rparr>,
            \<lparr>target_url = url, keywords = kws, tool_url = ''http://tools.example.com/'',
              backlink_url = ''https://other.com/y''\<rparr>])]"
  by (simp add: demo_down demo_tools split_beta)

section \<open>The link extractor: lemmas\<close>

lemma bnd_Inr_D:
  "bnd m f s = (Inr y, s') \<Longrightarrow> \<exists>x s1. m s = (Inr x, s1) \<and> f x s1 = (Inr y, s')"
  by (auto simp: bnd_def split: prod.splits sum.splits)

lemma try_finally_Inr_D:
  "try_finally m fin s = (Inr y, s') \<Longrightarrow> \<exists>s1. m s = (Inr y, s1) \<and> fin s1 = (Inr (), s')"
  by (auto simp: try_finally_def split: prod.splits sum.splits)

lemma anchor_loop_hosts:
  assumes "anchor_loop e url host anchors found = Inr out"
    and "\<forall>u \<in> set found. \<exists>p. urlparse e u = Inr p \<and> netloc p \<noteq> [] \<and> netloc p \<noteq> host"
  shows "\<forall>u \<in> set out. \<exists>p. urlparse e u = Inr p \<and> netloc p \<noteq> [] \<and> netloc p \<noteq> host"
  using assms
proof (induction anchors arbitrary: found)
  case Nil
  then show ?case by simp
next
  case (Cons a anchors)
  show ?case
    using Cons.prems Cons.IH [of found] Cons.IH [of "found @ [_]"]
    by (auto simp: Let_def split: if_splits sum.splits)
qed

lemma extract_links_hosts:
  assumes "extract_links e page s = (Inr links, s')"
  shows "\<exists>cur. urlparse e (url_of e page s) = Inr cur
           \<and> (\<forall>u \<in> set links. \<exists>p. urlparse e u = Inr p \<and> netloc p \<noteq> [] \<and> netloc p \<noteq> netloc cur)"
proof -
  from assms obtain cur where cur: "urlparse e (url_of e page s) = Inr cur"
    by (cases "urlparse e (url_of e page s)") (auto simp: extract_links_def bnd_def lift_def)
  have "\<forall>u \<in> set links. \<exists>p. urlparse e u = Inr p \<and> netloc p \<noteq> [] \<and> netloc p \<noteq> netloc cur"
    using assms cur anchor_loop_hosts [of e _ "netloc cur" _ "[]"]
    by (auto simp: extract_links_def bnd_def lift_def try_except_def ret_def set_dedupe
        split: prod.splits sum.splits option.splits)
  with cur show ?thesis by blast
qed


section \<open>Appending a path keeps scheme and network location\<close>








section \<open>The example page, evaluated\<close>

lemma parse_examples:
  "py_urlparse ''https://tools.example.com/x'' = Inr \<lparr>scheme = ''https'', netloc = ''tools.example.com''\<rparr>"
  "py_urlparse ''https://other.com/y'' = Inr \<lparr>scheme = ''https'', netloc = ''other.com''\<rparr>"
  "py_urlparse ''/relative'' = Inr \<lparr>scheme = [], netloc = []\<rparr>"
  "py_urlparse ''http://tools.example.com/about'' = Inr \<lparr>scheme = ''http'', netloc = ''tools.example.com''\<rparr>"
  "py_urlparse ''http://tools.example.com/'' = Inr \<lparr>scheme = ''http'', netloc = ''tools.example.com''\<rparr>"
  "py_urlparse ''https://www.tools.example.com/'' = Inr \<lparr>scheme = ''https'', netloc = ''www.tools.example.com''\<rparr>"
  "py_urlparse ''https://tools.example.com/backlink-maker'' = Inr \<lparr>scheme = ''https'', netloc = ''tools.example.com''\<rparr>"
  by (simp_all add: url_defs)




lemma page_env_simps:
  "urlparse (page_env hrefs) = py_urlparse"
  "url_of (page_env hrefs) p s = world s"
  "page_content (page_env hrefs) p w = (Inr w, w)"
  "page_url (page_env hrefs) w p = w"
  "find_all_a_href (page_env hrefs) html = hrefs"
  by (simp_all add: page_env_def demo_env_def url_of_def)

lemma run_single_tool_Inr_D:
  assumes "run_single_tool e tool target kws s = (Inr rs, s')"
  shows "\<exists>page s0 s1 s2 links.
           submit_target e page tool target kws s0 = (Inr (), s1)
           \<and> extract_links e page s1 = (Inr links, s2)
           \<and> rs = make_results tool target kws links"
proof -
  from assms obtain page sa where "new_page e s = (Inr page, sa)"
    and a: "bnd (\<lambda>s. set_default_timeout e page (per_tool_timeout_ms s) s) (\<lambda>u.
        try_finally
          (bnd (submit_target e page tool target kws) (\<lambda>u.
           bnd (extract_links e page) (\<lambda>backlinks.
           ret (make_results tool target kws backlinks))))
          (try_except (close_page e page) (ret ()))) sa = (Inr rs, s')"
    unfolding run_single_tool_def by (blast dest: bnd_Inr_D)
  from a obtain s0 where
    "try_finally
          (bnd (submit_target e page tool target kws) (\<lambda>u.
           bnd (extract_links e page) (\<lambda>backlinks.
           ret (make_results tool target kws backlinks))))
          (try_except (close_page e page) (ret ())) s0 = (Inr rs, s')"
    by (blast dest: bnd_Inr_D)
  then obtain s3 where
    "bnd (submit_target e page tool target kws) (\<lambda>u.
           bnd (extract_links e page) (\<lambda>backlinks.
           ret (make_results tool target kws backlinks))) s0 = (Inr rs, s3)"
    by (blast dest: try_finally_Inr_D)
  from bnd_Inr_D [OF this]
  obtain x s1 where "submit_target e page tool target kws s0 = (Inr x, s1)"
    and b: "bnd (extract_links e page) (\<lambda>backlinks.
           ret (make_results tool target kws backlinks)) s1 = (Inr rs, s3)"
    by blast
  then have st: "submit_target e page tool target kws s0 = (Inr (), s1)" by simp
  from bnd_Inr_D [OF b] obtain links s2 where ex: "extract_links e page s1 = (Inr links, s2)"
    and "ret (make_results tool target kws links) s2 = (Inr rs, s3)"
    by (blast dest: bnd_Inr_D)
  then have "rs = make_results tool target kws links" by (simp add: ret_def)
  with st ex show ?thesis by blast
qed

section \<open>The submitter and the field locator\<close>

lemma block_specI:
  assumes "history s' = history s @ h" "b = list_ex is_action h" "\<not> list_ex is_action (butlast h)"
    "if list_ex is_action h then prefix (finders h) cs \<and> is_click (fst (last h)) else finders h = cs"
  shows "block_spec cs s (Inr b, s')"
  using assms by (simp add: block_spec_def added_def Let_def)

lemma block_specD:
  assumes "block_spec cs s r"
  obtains h where "history (snd r) = history s @ h" "fst r = Inr (list_ex is_action h)"
    "\<not> list_ex is_action (butlast h)"
    "if list_ex is_action h then prefix (finders h) cs \<and> is_click (fst (last h)) else finders h = cs"
proof -
  from assms obtain h where h: "history (snd r) = history s @ h"
    by (auto simp: block_spec_def Let_def prefix_def)
  then have "added s (snd r) = h" by (simp add: added_def)
  with assms h that show thesis by (simp add: block_spec_def Let_def)
qed

lemma try_click_spec:
  assumes "is_finder c"
  shows "block_spec [c] s (try_click e (perform c LocatorV f) s)"
proof -
  obtain r1 w1 where 1: "f (world s) = (r1, w1)" by (cases "f (world s)")
  show ?thesis
  proof (cases r1)
    case (Inl err)
    with 1 assms show ?thesis
      by (auto intro!: block_specI [where h = "[(c, Inl err)]"]
          simp: try_click_def try_except_def bnd_def perform_def ret_def is_action_def finders_def
            returned_def is_finder_def split: call.splits)
  next
    case (Inr l)
    obtain r2 w2 where 2: "locator_first e l w1 = (r2, w2)" by (cases "locator_first e l w1")
    show ?thesis
    proof (cases r2)
      case (Inl err)
      with 1 2 Inr assms show ?thesis
        by (auto intro!: block_specI [where h = "[(c, Inr (LocatorV l)), (First l, Inl err)]"]
            simp: try_click_def try_except_def bnd_def perform_def ret_def is_action_def finders_def
              returned_def is_finder_def first_def split: call.splits)
    next
      case cand: (Inr candidate)
      obtain r3 w3 where 3: "locator_count e candidate w2 = (r3, w3)"
        by (cases "locator_count e candidate w2")
      show ?thesis
      proof (cases r3)
        case (Inl err)
        with 1 2 3 Inr cand assms show ?thesis
          by (auto intro!: block_specI [where h = "[(c, Inr (LocatorV l)),
                  (First l, Inr (LocatorV candidate)), (Count candidate, Inl err)]"]
              simp: try_click_def try_except_def bnd_def perform_def ret_def is_action_def
                finders_def returned_def is_finder_def first_def count_def split: call.splits)
      next
        case n: (Inr n)
        show ?thesis
        proof (cases "n > 0")
          case False
          with 1 2 3 Inr cand n assms show ?thesis
            by (auto intro!: block_specI [where h = "[(c, Inr (LocatorV l)),
                    (First l, Inr (LocatorV candidate)), (Count candidate, Inr (Number n))]"]
                simp: try_click_def try_except_def bnd_def perform_def ret_def is_action_def
                  finders_def returned_def is_finder_def first_def count_def split: call.splits)
        next
          case True
          obtain r4 w4 where 4: "locator_click e candidate w3 = (r4, w4)"
            by (cases "locator_click e candidate w3")
          from True 1 2 3 4 Inr cand n assms show ?thesis
            by (cases r4)
               (auto intro!: block_specI [where h = "[(c, Inr (LocatorV l)),
                    (First l, Inr (LocatorV candidate)), (Count candidate, Inr (Number n)),
                    (Click candidate, map_sum id nothing r4)]"]
                simp: try_click_def try_except_def bnd_def perform_def ret_def is_action_def
                  finders_def returned_def is_finder_def first_def count_def click_def is_click_def
                split: call.splits)
        qed
      qed
    qed
  qed
qed

lemma block_spec_seq:
  assumes 1: "block_spec cs1 s (m s)" and 2: "\<And>s1. block_spec cs2 s1 (k s1)"
  shows "block_spec (cs1 @ cs2) s (bnd m (\<lambda>b. if b then ret True else k) s)"
proof -
  obtain r s1 where ms: "m s = (r, s1)" by (cases "m s")
  from block_specD [OF 1] ms obtain h1 where h1: "history s1 = history s @ h1"
    "r = Inr (list_ex is_action h1)" "\<not> list_ex is_action (butlast h1)"
    "if list_ex is_action h1 then prefix (finders h1) cs1 \<and> is_click (fst (last h1))
     else finders h1 = cs1"
    by auto
  show ?thesis
  proof (cases "list_ex is_action h1")
    case True
    with ms h1 have "bnd m (\<lambda>b. if b then ret True else k) s = (Inr True, s1)"
      by (simp add: bnd_def ret_def)
    moreover have "block_spec (cs1 @ cs2) s (Inr True, s1)"
      using h1 True by (intro block_specI [where h = h1]) (auto simp: prefix_def)
    ultimately show ?thesis by simp
  next
    case False
    with ms h1 have run: "bnd m (\<lambda>b. if b then ret True else k) s = k s1"
      by (simp add: bnd_def)
    from block_specD [OF 2 [of s1]] obtain h2 where h2: "history (snd (k s1)) = history s1 @ h2"
      "fst (k s1) = Inr (list_ex is_action h2)" "\<not> list_ex is_action (butlast h2)"
      "if list_ex is_action h2 then prefix (finders h2) cs2 \<and> is_click (fst (last h2))
       else finders h2 = cs2"
      by auto
    have none1: "\<not> list_ex is_action (h1 @ butlast h2)"
      using False h2(3) by (auto simp: list_ex_iff)
    have bl: "\<not> list_ex is_action (butlast (h1 @ h2))"
      using none1 False h1(3) by (cases "h2 = []") (simp_all add: butlast_append list_ex_iff)
    have ex: "list_ex is_action (h1 @ h2) = list_ex is_action h2"
      using False by (auto simp: list_ex_iff)
    have fin: "finders (h1 @ h2) = cs1 @ finders h2"
      using h1(4) False by (simp add: finders_def)
    have "block_spec (cs1 @ cs2) s (Inr (list_ex is_action (h1 @ h2)), snd (k s1))"
    proof (intro block_specI [where h = "h1 @ h2"])
      show "history (snd (k s1)) = history s @ h1 @ h2" using h1 h2 by simp
      show "\<not> list_ex is_action (butlast (h1 @ h2))" by (rule bl)
      show "if list_ex is_action (h1 @ h2)
            then prefix (finders (h1 @ h2)) (cs1 @ cs2) \<and> is_click (fst (last (h1 @ h2)))
            else finders (h1 @ h2) = cs1 @ cs2"
        using h2(4) fin ex by (cases "h2 = []") (auto simp: list_ex_iff)
    qed simp
    with run h2(2) ex show ?thesis by (metis prod.collapse)
  qed
qed

lemma text_loop_spec:
  "block_spec (concat (map (text_strategies page) txts)) s (text_loop e page txts s)"
proof (induction txts arbitrary: s)
  case Nil
  show ?case
    by (auto intro!: block_specI [where h = "[]"] simp: ret_def finders_def)
next
  case (Cons tx txts)
  have a: "is_finder (GetByRole page ''button'' tx)"
    "is_finder (Locator page sel)" for sel
    by (simp_all add: is_finder_def)
  have "block_spec ([GetByRole page ''button'' tx] @
      ([Locator page (''button:has-text('' @ quoted tx @ '')'')] @
       ([Locator page (''input[type=button][value*='' @ quoted tx @ ''], input[value*=''
           @ quoted tx @ '']'')] @ concat (map (text_strategies page) txts)))) s
     (text_loop e page (tx # txts) s)"
    unfolding text_loop.simps get_by_role_def locator_def
    by (intro block_spec_seq try_click_spec a Cons.IH)
  then show ?case
    by (simp only: list.map concat.simps text_strategies_def [of page tx] append_Cons append_Nil)
qed

lemma enter_block:
  "\<exists>r. try_except (bnd (keyboard_press e page ''Enter'') (\<lambda>u. ret True)) (ret False) s =
         (Inr (returned r), s\<lparr>world := snd (page_keyboard_press e page ''Enter'' (world s)),
            history := history s @ [(KeyboardPress page ''Enter'', r)]\<rparr>)
       \<and> (returned r \<longrightarrow> r = Inr Nothing)"
proof -
  obtain r w where rw: "page_keyboard_press e page ''Enter'' (world s) = (r, w)"
    by (cases "page_keyboard_press e page ''Enter'' (world s)")
  show ?thesis
  proof (cases r)
    case (Inl err)
    with rw show ?thesis
      by (intro exI [of _ "Inl err"])
         (simp add: try_except_def bnd_def keyboard_press_def perform_def ret_def returned_def)
  next
    case (Inr u)
    with rw show ?thesis
      by (intro exI [of _ "Inr Nothing"])
         (simp add: try_except_def bnd_def keyboard_press_def perform_def ret_def returned_def
            nothing_def)
  qed
qed








lemma by_label_mono: "set hints \<subseteq> set hints' \<Longrightarrow> by_label page hints h \<Longrightarrow> by_label page hints' h"
  unfolding by_label_def by blast





























lemma button_run:
  "click_submit button_env () (demo_state []) =
     (Inr True,
      (demo_state [])\<lparr>history :=
         [(Locator () ''input[type=submit], button[type=submit]'',
             Inr (LocatorV ''input[type=submit], button[type=submit]'')),
          (First ''input[type=submit], button[type=submit]'',
             Inr (LocatorV ''input[type=submit], button[type=submit]'')),
          (Count ''input[type=submit], button[type=submit]'', Inr (Number 1)),
          (Click ''input[type=submit], button[type=submit]'', Inr Nothing)]\<rparr>)"
  by (simp add: click_submit_def try_click_def monad_defs call_defs button_env_def demo_def
      demo_env_def demo_state_def)

lemma button_result: "fst (click_submit button_env () (demo_state [])) = Inr True"
  unfolding button_run by simp

lemma button_added:
  "added (demo_state []) (snd (click_submit button_env () (demo_state []))) =
       [(Locator () ''input[type=submit], button[type=submit]'',
           Inr (LocatorV ''input[type=submit], button[type=submit]'')),
        (First ''input[type=submit], button[type=submit]'',
           Inr (LocatorV ''input[type=submit], button[type=submit]'')),
        (Count ''input[type=submit], button[type=submit]'', Inr (Number 1)),
        (Click ''input[type=submit], button[type=submit]'', Inr Nothing)]"
  unfolding button_run by (simp add: added_def demo_state_def)

lemma no_keyboard_run:
  "fst (click_submit no_keyboard_env () (demo_state [])) = Inr False"
  by (simp add: click_submit_def try_click_def button_texts_def monad_defs call_defs
      no_keyboard_env_def demo_def demo_env_def demo_state_def)
















section \<open>The claims\<close>




text \<open>
  Claim C2 does not hold of the code: a destination without scheme is appended to the whole
  page address (its trailing slashes removed), not resolved against it. On the page
  \<^verbatim>\<open>https://h/p/q.html\<close> the destination \<^verbatim>\<open>a/b\<close> becomes
  \<^verbatim>\<open>https://h/p/q.html/a/b\<close> where resolution gives \<^verbatim>\<open>https://h/p/a/b\<close>, and
  \<^verbatim>\<open>/r\<close> becomes \<^verbatim>\<open>https://h/p/q.html/r\<close> where resolution gives
  \<^verbatim>\<open>https://h/r\<close>. The scheme-relative \<^verbatim>\<open>//other.com/z\<close>, which resolves to
  the external \<^verbatim>\<open>https://other.com/z\<close>, is taken for a link to the page's own host
  and dropped.
\<close>

theorem make_absolute_concatenates:
  "abs_url_of (page_env []) ''https://h/p/q.html'' ''a/b'' = Inr ''https://h/p/q.html/a/b''
   \<and> abs_url_of (page_env []) ''https://h/p/q.html'' ''/r'' = Inr ''https://h/p/q.html/r''
   \<and> fst (extract_links (page_env [''//other.com/z'']) () (page_state ''https://h/p/q.html'')) = Inr []"
  by (simp add: page_env_simps abs_url_of_def make_absolute_def url_defs extract_links_def monad_defs
      content_def page_state_def dedupe_def)

text \<open>
  Claim C3. Whatever a tool does, \<^verbatim>\<open>run_for_target\<close> returns a list and never raises;
  it opens one page per tool of the catalog, so every tool after a failing one is still
  attempted; when a tool raises, the loop carries on with the tools after it and the
  results gathered so far, to which the failing tool has added nothing; and when no
  tool contributes a record the result is the empty list.
\<close>

theorem run_for_target_isolates_failures:
  "(\<exists>rs. fst (run_for_target e url kws s) = Inr rs)
   \<and> page_opens (added s (snd (run_for_target e url kws s))) = length (tools s)
   \<and> (tools s = ts1 @ t # ts2 \<longrightarrow> tool_loop e url kws ts1 [] s = (Inr r1, s1) \<longrightarrow>
        run_single_tool e t url kws s1 = (Inl err, s2) \<longrightarrow>
        run_for_target e url kws s = tool_loop e url kws ts2 r1 s2)
   \<and> ((\<forall>tr \<in> set (per_tool_outcomes e url kws (tools s) s). records_of (snd tr) = []) \<longrightarrow>
        fst (run_for_target e url kws s) = Inr [])"
proof (intro conjI impI)
  show "\<exists>rs. fst (run_for_target e url kws s) = Inr rs"
    by (simp add: run_for_target_def tool_loop_outcomes)
  show "page_opens (added s (snd (run_for_target e url kws s))) = length (tools s)"
    using tool_loop_history [of e url kws "tools s" "[]" s]
    by (auto simp: run_for_target_def added_def)
  show "run_for_target e url kws s = tool_loop e url kws ts2 r1 s2"
    if "tools s = ts1 @ t # ts2" "tool_loop e url kws ts1 [] s = (Inr r1, s1)"
      "run_single_tool e t url kws s1 = (Inl err, s2)"
    using that
    by (simp add: run_for_target_def tool_loop_append tool_loop_Cons records_of_def
        del: tool_loop.simps)
  show "fst (run_for_target e url kws s) = Inr []"
    if "\<forall>tr \<in> set (per_tool_outcomes e url kws (tools s) s). records_of (snd tr) = []"
    using that by (simp add: run_for_target_def tool_loop_outcomes)
qed

text \<open>
  With the catalog \<open>[down, tools]\<close>, whose first tool fails to load: the run is the loop
  over the second tool alone, started where the first one stopped. With the catalog
  \<open>[down]\<close> the result is the empty list.
\<close>

theorem run_for_target_isolates_failures_witness:
  "run_for_target demo ''https://me.example/'' ''seo''
       (demo_state [''http://down.example/'', ''http://tools.example.com/'']) =
     tool_loop demo ''https://me.example/'' ''seo'' [''http://tools.example.com/''] []
       (snd (run_single_tool demo ''http://down.example/'' ''https://me.example/'' ''seo''
          (demo_state [''http://down.example/'', ''http://tools.example.com/''])))
   \<and> fst (run_for_target demo ''https://me.example/'' ''seo''
            (demo_state [''http://down.example/''])) = Inr []"
  using run_for_target_isolates_failures [of demo "''https://me.example/''" "''seo''"
      "demo_state [''http://down.example/'', ''http://tools.example.com/'']"
      "[]" "''http://down.example/''" "[''http://tools.example.com/'']" "[]"
      "demo_state [''http://down.example/'', ''http://tools.example.com/'']"
      PlaywrightError
      "snd (run_single_tool demo ''http://down.example/'' ''https://me.example/'' ''seo''
          (demo_state [''http://down.example/'', ''http://tools.example.com/'']))"]
    run_for_target_isolates_failures [of demo "''https://me.example/''" "''seo''"
      "demo_state [''http://down.example/'']"]
  by (simp add: demo_state_def demo_down ret_def records_of_def)

text \<open>
  Claim C4, as stated, fails: a tool asked at \<^verbatim>\<open>http://tools.example.com/\<close> that
  answers from \<^verbatim>\<open>https://www.tools.example.com/\<close> with a link to
  \<^verbatim>\<open>http://tools.example.com/about\<close> yields a record whose link has the host of
  its \<^verbatim>\<open>tool_url\<close>.
\<close>

theorem record_on_tool_host_counterexample:
  "fst (run_single_tool demo ''http://tools.example.com/'' ''https://me.example/'' ''seo''
          (demo_state [''http://tools.example.com/''])) =
     Inr [\<lparr>target_url = ''https://me.example/'', keywords = ''seo'',
            tool_url = ''http://tools.example.com/'',
            backlink_url = ''http://tools.example.com/about''\<rparr>,
          \<lparr>target_url = ''https://me.example/'', keywords = ''seo'',
            tool_url = ''http://tools.example.com/'',
            backlink_url = ''https://other.com/y''\<rparr>]
   \<and> py_urlparse ''http://tools.example.com/'' =
        Inr \<lparr>scheme = ''http'', netloc = ''tools.example.com''\<rparr>
   \<and> py_urlparse ''http://tools.example.com/about'' =
        Inr \<lparr>scheme = ''http'', netloc = ''tools.example.com''\<rparr>"
  by (simp add: demo_tools parse_examples)

text \<open>
  Claim C4, amended. When \<^verbatim>\<open>_run_single_tool\<close> returns records, they are built from
  the links \<^verbatim>\<open>_extract_links\<close> returned on the page as submission and settling left
  it; each carries the tool's URL, and the network location of its link is not empty and
  differs from the network location of \<^verbatim>\<open>page.url\<close> at that moment.
\<close>

theorem records_avoid_page_host:
  "run_single_tool e tool target kws s = (Inr rs, s') \<longrightarrow>
     (\<exists>page s0 s1 s2 cur.
        submit_target e page tool target kws s0 = (Inr (), s1)
        \<and> extract_links e page s1 = (Inr (map backlink_url rs), s2)
        \<and> urlparse e (url_of e page s1) = Inr cur
        \<and> (\<forall>r \<in> set rs. tool_url r = tool
              \<and> (\<exists>p. urlparse e (backlink_url r) = Inr p \<and> netloc p \<noteq> [] \<and> netloc p \<noteq> netloc cur)))"
proof
  assume "run_single_tool e tool target kws s = (Inr rs, s')"
  then obtain page s0 s1 s2 links where st: "submit_target e page tool target kws s0 = (Inr (), s1)"
    and ex: "extract_links e page s1 = (Inr links, s2)"
    and rs: "rs = make_results tool target kws links"
    using run_single_tool_Inr_D by blast
  from rs have links: "map backlink_url rs = links"
    by (simp add: make_results_def comp_def)
  from extract_links_hosts [OF ex] obtain cur where cur: "urlparse e (url_of e page s1) = Inr cur"
    and hosts: "\<forall>u \<in> set links. \<exists>p. urlparse e u = Inr p \<and> netloc p \<noteq> [] \<and> netloc p \<noteq> netloc cur"
    by blast
  have "\<forall>r \<in> set rs. tool_url r = tool
          \<and> (\<exists>p. urlparse e (backlink_url r) = Inr p \<and> netloc p \<noteq> [] \<and> netloc p \<noteq> netloc cur)"
    using hosts rs make_results_fields [of _ tool target kws links] by blast
  with st ex links cur show "\<exists>page s0 s1 s2 cur.
        submit_target e page tool target kws s0 = (Inr (), s1)
        \<and> extract_links e page s1 = (Inr (map backlink_url rs), s2)
        \<and> urlparse e (url_of e page s1) = Inr cur
        \<and> (\<forall>r \<in> set rs. tool_url r = tool
              \<and> (\<exists>p. urlparse e (backlink_url r) = Inr p \<and> netloc p \<noteq> [] \<and> netloc p \<noteq> netloc cur))"
    by blast
qed

theorem records_avoid_page_host_witness:
  "\<exists>page s0 s1 s2 cur.
     submit_target demo page ''http://tools.example.com/'' ''https://me.example/'' ''seo'' s0 =
       (Inr (), s1)
     \<and> extract_links demo page s1 =
          (Inr (map backlink_url
             [\<lparr>target_url = ''https://me.example/'', keywords = ''seo'',
                tool_url = ''http://tools.example.com/'',
                backlink_url = ''http://tools.example.com/about''\<rparr>,
              \<lparr>target_url = ''https://me.example/'', keywords = ''seo'',
                tool_url = ''http://tools.example.com/'',
                backlink_url = ''https://other.com/y''\<rparr>]), s2)
     \<and> urlparse demo (url_of demo page s1) = Inr cur
     \<and> (\<forall>r \<in> set [\<lparr>target_url = ''https://me.example/'', keywords = ''seo'',
                tool_url = ''http://tools.example.com/'',
                backlink_url = ''http://tools.example.com/about''\<rparr>,
              \<lparr>target_url = ''https://me.example/'', keywords = ''seo'',
                tool_url = ''http://tools.example.com/'',
                backlink_url = ''https://other.com/y''\<rparr>].
           tool_url r = ''http://tools.example.com/''
           \<and> (\<exists>p. urlparse demo (backlink_url r) = Inr p \<and> netloc p \<noteq> []
                  \<and> netloc p \<noteq> netloc cur))"
proof -
  let ?s = "demo_state [''http://tools.example.com/'']"
  let ?run = "run_single_tool demo ''http://tools.example.com/'' ''https://me.example/'' ''seo'' ?s"
  have "?run =
      (Inr [\<lparr>target_url = ''https://me.example/'', keywords = ''seo'',
                tool_url = ''http://tools.example.com/'',
                backlink_url = ''http://tools.example.com/about''\<rparr>,
              \<lparr>target_url = ''https://me.example/'', keywords = ''seo'',
                tool_url = ''http://tools.example.com/'',
                backlink_url = ''https://other.com/y''\<rparr>], snd ?run)"
    using demo_tools [of "''https://me.example/''" "''seo''" ?s] by (metis prod.collapse)
  with records_avoid_page_host [of demo "''http://tools.example.com/''" "''https://me.example/''" "''seo''" ?s _ "snd ?run"]
  show ?thesis by (rule mp)
qed

text \<open>
  Claim C5. For every raw list, the deduplicated list has each URL of the raw list exactly
  once, in the order of first occurrence: \<open>a\<close> comes before \<open>b\<close> in it exactly when the
  first \<open>a\<close> comes before the first \<open>b\<close> in the raw list. \<^verbatim>\<open>__init__\<close> sets the
  catalog to the deduplicated \<^verbatim>\<open>raw_tools\<close>, and neither \<^verbatim>\<open>run_for_target\<close> nor
  \<^verbatim>\<open>shutdown\<close> changes it.
\<close>

theorem catalog_deduplicated_and_kept:
  "distinct (dedupe raw) \<and> set (dedupe raw) = set raw
   \<and> (first_index (dedupe raw) a < first_index (dedupe raw) b) =
       (first_index raw a < first_index raw b)
   \<and> (init e headless sec w = Inr s0 \<longrightarrow> tools s0 = dedupe raw_tools)
   \<and> tools (snd (run_for_target e url kws s)) = tools s
   \<and> tools (snd (shutdown e s)) = tools s"
  using steps_shutdown [of s e] init_tools [of e headless sec w s0]
  by (simp add: distinct_dedupe set_dedupe first_index_dedupe run_for_target_tools steps_def
      load_tools_def)

theorem catalog_deduplicated_and_kept_witness:
  "init demo True 45 ''about:blank'' =
     Inr \<lparr>per_tool_timeout_ms = 45000, tools = load_tools, world = ''about:blank'',
          history = [(SyncPlaywrightStart, Inr Nothing), (ChromiumLaunch True, Inr Nothing),
                     (BrowserNewContext, Inr Nothing)]\<rparr>
   \<and> load_tools = dedupe raw_tools
   \<and> dedupe [''a'', ''b'', ''a'', ''c'', ''b''] = [''a'', ''b'', ''c'']"
  using catalog_deduplicated_and_kept [of "[''a'', ''b'', ''a'', ''c'', ''b'']" "''a''" "''b''"
      demo True 45 "''about:blank''"
      "\<lparr>per_tool_timeout_ms = 45000, tools = load_tools, world = ''about:blank'',
        history = [(SyncPlaywrightStart, Inr Nothing), (ChromiumLaunch True, Inr Nothing),
                   (BrowserNewContext, Inr Nothing)]\<rparr>"]
    demo_init
  by (simp add: dedupe_def)




text \<open>
  Claim C7. Whatever the browser does, \<^verbatim>\<open>_click_submit\<close> returns, and never raises; it
  returns \<^verbatim>\<open>True\<close> exactly when it took an action, a click or a key dispatch that
  returned. It looks for the buttons in the fixed order, failures swallowed, and the action
  is the last call it makes: a click, or the dispatch of Enter after every button was looked
  for, which counts as soon as it returns. It returns \<^verbatim>\<open>False\<close> only when every button
  was looked for, none was clicked, and the dispatch of Enter raised.
\<close>

theorem click_submit_reports_action:
  "fst (click_submit e page s) = Inr (list_ex is_action (added s (snd (click_submit e page s))))
   \<and> \<not> list_ex is_action (butlast (added s (snd (click_submit e page s))))
   \<and> prefix (finders (added s (snd (click_submit e page s)))) (submit_strategies page)
   \<and> (list_ex is_action (added s (snd (click_submit e page s))) \<longrightarrow>
        is_click (fst (last (added s (snd (click_submit e page s)))))
        \<or> (last (added s (snd (click_submit e page s))) = (KeyboardPress page ''Enter'', Inr Nothing)
           \<and> finders (added s (snd (click_submit e page s))) = submit_strategies page))
   \<and> (\<not> list_ex is_action (added s (snd (click_submit e page s))) \<longrightarrow>
        finders (added s (snd (click_submit e page s))) = submit_strategies page
        \<and> (\<exists>err. last (added s (snd (click_submit e page s))) =
                    (KeyboardPress page ''Enter'', Inl err)))"
proof -
  define m where "m = bnd (try_click e (locator e page ''input[type=submit], button[type=submit]''))
      (\<lambda>b. if b then ret True else text_loop e page button_texts)"
  have cs: "click_submit e page =
      bnd m (\<lambda>done1. if done1 then ret True else
        try_except (bnd (keyboard_press e page ''Enter'') (\<lambda>u. ret True)) (ret False))"
    by (auto simp: click_submit_def m_def bnd_def ret_def fun_eq_iff split: prod.splits sum.splits)
  have "block_spec ([Locator page ''input[type=submit], button[type=submit]''] @
          concat (map (text_strategies page) button_texts)) s (m s)"
    unfolding m_def locator_def
    by (intro block_spec_seq try_click_spec text_loop_spec) (simp add: is_finder_def)
  then have spec: "block_spec (submit_strategies page) s (m s)"
    by (simp add: submit_strategies_def)
  obtain r s1 where ms: "m s = (r, s1)" by (cases "m s")
  from block_specD [OF spec] ms obtain h1 where h1: "history s1 = history s @ h1"
    "r = Inr (list_ex is_action h1)" "\<not> list_ex is_action (butlast h1)"
    "if list_ex is_action h1 then prefix (finders h1) (submit_strategies page) \<and> is_click (fst (last h1))
     else finders h1 = submit_strategies page"
    by auto
  show ?thesis
  proof (cases "list_ex is_action h1")
    case True
    with ms h1 have "click_submit e page s = (Inr True, s1)"
      by (simp add: cs bnd_def ret_def)
    with True h1 show ?thesis by (simp add: added_def)
  next
    case False
    from enter_block [of e page s1] obtain r2 where
      r2: "try_except (bnd (keyboard_press e page ''Enter'') (\<lambda>u. ret True)) (ret False) s1 =
         (Inr (returned r2), s1\<lparr>world := snd (page_keyboard_press e page ''Enter'' (world s1)),
            history := history s1 @ [(KeyboardPress page ''Enter'', r2)]\<rparr>)"
      and ok: "returned r2 \<longrightarrow> r2 = Inr Nothing"
      by blast
    from False ms h1 r2 have run: "click_submit e page s =
         (Inr (returned r2), s1\<lparr>world := snd (page_keyboard_press e page ''Enter'' (world s1)),
            history := history s1 @ [(KeyboardPress page ''Enter'', r2)]\<rparr>)"
      by (simp add: cs bnd_def)
    have add: "added s (snd (click_submit e page s)) = h1 @ [(KeyboardPress page ''Enter'', r2)]"
      using run h1 by (simp add: added_def)
    have act: "list_ex is_action (h1 @ [(KeyboardPress page ''Enter'', r2)]) = returned r2"
      using False by (simp add: is_action_def)
    have fin: "finders (h1 @ [(KeyboardPress page ''Enter'', r2)]) = submit_strategies page"
      using False h1(4) by (simp add: finders_def is_finder_def)
    have err: "\<not> returned r2 \<Longrightarrow> \<exists>err. r2 = Inl err"
      by (cases r2) (simp_all add: returned_def)
    show ?thesis
      unfolding add act fin
      using False run ok err by auto
  qed
qed

theorem click_submit_reports_action_witness:
  "fst (click_submit button_env () (demo_state [])) = Inr True
   \<and> added (demo_state []) (snd (click_submit button_env () (demo_state []))) =
       [(Locator () ''input[type=submit], button[type=submit]'',
           Inr (LocatorV ''input[type=submit], button[type=submit]'')),
        (First ''input[type=submit], button[type=submit]'',
           Inr (LocatorV ''input[type=submit], button[type=submit]'')),
        (Count ''input[type=submit], button[type=submit]'', Inr (Number 1)),
        (Click ''input[type=submit], button[type=submit]'', Inr Nothing)]
   \<and> fst (click_submit no_keyboard_env () (demo_state [])) = Inr False
   \<and> finders (added (demo_state []) (snd (click_submit no_keyboard_env () (demo_state [])))) =
       submit_strategies ()
   \<and> (\<exists>err. last (added (demo_state []) (snd (click_submit no_keyboard_env () (demo_state [])))) =
               (KeyboardPress () ''Enter'', Inl err))"
  using click_submit_reports_action [of button_env "()" "demo_state []"] click_submit_reports_action [of no_keyboard_env "()" "demo_state []"]
    no_keyboard_run
  by (simp add: button_added button_result)

text \<open>
  Claim C8, as stated, fails: when closing the browsing context raises, \<^verbatim>\<open>shutdown\<close>
  raises to its caller.
\<close>

theorem shutdown_raises_counterexample:
  "fst (shutdown failing_close_env (demo_state [])) = Inl PlaywrightError"
  by (simp add: shutdown_def try_finally_def perform_def nothing_def failing_close_env_def demo_def
      demo_env_def demo_state_def)

text \<open>
  Claim C8, amended. \<^verbatim>\<open>shutdown\<close> always makes the three calls, closing the context,
  closing the browser and stopping the engine, in this order, whichever of them raise; it
  returns exactly when all three returned, and raises otherwise; the call site in
  \<^verbatim>\<open>app.py\<close>, which wraps it in \<^verbatim>\<open>try\<close> / \<^verbatim>\<open>except: pass\<close>, never raises.
\<close>

theorem shutdown_attempts_every_close:
  "map fst (added s (snd (shutdown e s))) = [ContextClose, BrowserClose, PlaywrightStop]
   \<and> (fst (shutdown e s) = Inr ()) = list_all (\<lambda>cb. returned (snd cb)) (added s (snd (shutdown e s)))
   \<and> fst (app_shutdown e s) = Inr ()"
  by (simp add: shutdown_history shutdown_result [symmetric] app_shutdown_result)

text \<open>
  Claim C9. Dropping the records whose \<^verbatim>\<open>backlink_url\<close> occurred before, which looks at
  no other field, is idempotent; its result has pairwise different \<^verbatim>\<open>backlink_url\<close>
  values, the same ones as its argument. The deduplication of the links inside
  \<^verbatim>\<open>_extract_links\<close> is idempotent as well.
\<close>

theorem drop_duplicates_idempotent:
  "drop_duplicates (drop_duplicates rs) = drop_duplicates rs
   \<and> distinct (map backlink_url (drop_duplicates rs))
   \<and> backlink_url ` set (drop_duplicates rs) = backlink_url ` set rs
   \<and> dedupe (dedupe links) = dedupe links"
  by (simp add: drop_duplicates_idem dedupe_idem)
     (simp add: drop_duplicates_def distinct_drop_duplicates_loop keys_drop_duplicates_loop)

text \<open>
  Claim C10. \<^verbatim>\<open>run_for_target\<close> returns the concatenation, in catalog order, of what
  each tool of the catalog contributes (its records when \<^verbatim>\<open>_run_single_tool\<close> returned,
  nothing when it raised); and every record a tool contributes carries the target URL and
  the keywords given to \<^verbatim>\<open>run_for_target\<close> and the catalog URL of that tool.
\<close>

theorem run_for_target_concatenates:
  "fst (run_for_target e url kws s) =
     Inr (concat (map (\<lambda>tr. records_of (snd tr)) (per_tool_outcomes e url kws (tools s) s)))
   \<and> map fst (per_tool_outcomes e url kws (tools s) s) = tools s
   \<and> (\<forall>tr \<in> set (per_tool_outcomes e url kws (tools s) s). \<forall>r \<in> set (records_of (snd tr)).
         target_url r = url \<and> keywords r = kws \<and> tool_url r = fst tr)"
  using tool_loop_outcomes [of e url kws "tools s" "[]" s]
    per_tool_outcomes_fields [of _ e url kws "tools s" s]
  by (simp add: run_for_target_def per_tool_outcomes_tools)

theorem run_for_target_concatenates_witness:
  "fst (run_for_target demo ''https://me.example/'' ''seo''
          (demo_state [''http://down.example/'', ''http://tools.example.com/''])) =
     Inr [\<lparr>target_url = ''https://me.example/'', keywords = ''seo'',
            tool_url = ''http://tools.example.com/'',
            backlink_url = ''http://tools.example.com/about''\<rparr>,
          \<lparr>target_url = ''https://me.example/'', keywords = ''seo'',
            tool_url = ''http://tools.example.com/'',
            backlink_url = ''https://other.com/y''\<rparr>]"
  using run_for_target_concatenates [of demo "''https://me.example/''" "''seo''"
      "demo_state [''http://down.example/'', ''http://tools.example.com/'']"]
  by (simp add: demo_state_def demo_outcomes records_of_def del: per_tool_outcomes.simps)

end
